theory Spec2Isabelle
  imports Main "HOL-Library.Char_ord" "HOL-Library.List_Lexorder" "HOL-Library.Multiset"
    "HOL-Library.Sublist" "HOL-Library.AList"
begin

section \<open>Overview\<close>

text \<open>
  A model of \<^verbatim>\<open>docs/make_docs.py\<close>, the script that builds the documentation of Open3D:
  the reference emitter (\<^verbatim>\<open>PyAPIDocsBuilder\<close>), the static-site invoker
  (\<^verbatim>\<open>SphinxDocsBuilder\<close>), the native-API invoker (\<^verbatim>\<open>DoxygenDocsBuilder\<close>), the notebook
  stager (\<^verbatim>\<open>JupyterDocsBuilder\<close>) and the body of the script.

  A statement of the script is a function from the world (environment variables, file
  system, console output) to a result and a new world; an exception is the result
  \<open>Raise\<close>, and the world it leaves is kept. Loops are recursive functions over the list
  they run over. What the script calls and does not define is a parameter (the record
  \<open>externals\<close>) or, for the calls on the file system, a function on a small model of a
  file system. Names are taken as ASCII strings; parsing of the command line is left out.
\<close>

section \<open>Strings\<close>

text \<open>
  Python strings are modelled as \<open>string\<close> (lists of characters). The functions below are
  the string methods that \<^verbatim>\<open>make_docs.py\<close> calls.
\<close>

abbreviation NL :: char where
  "NL \<equiv> CHR 0x0A"

text \<open>\<^verbatim>\<open>s.split(sep)\<close> for a one-character separator: every occurrence of the separator
  ends a field, so the result is never empty and may hold empty fields.\<close>

fun split_acc :: "char \<Rightarrow> string \<Rightarrow> string \<Rightarrow> string list" where
  "split_acc sep acc [] = [rev acc]"
| "split_acc sep acc (c # cs) =
     (if c = sep then rev acc # split_acc sep [] cs else split_acc sep (c # acc) cs)"

definition split_on :: "char \<Rightarrow> string \<Rightarrow> string list" where
  "split_on sep s = split_acc sep [] s"

text \<open>\<^verbatim>\<open>sep.join(xs)\<close>.\<close>

fun join :: "string \<Rightarrow> string list \<Rightarrow> string" where
  "join sep [] = []"
| "join sep [x] = x"
| "join sep (x # y # ys) = x @ sep @ join sep (y # ys)"

text \<open>\<^verbatim>\<open>s.rstrip("\n")\<close>: all trailing newlines are removed.\<close>

definition rstrip_nl :: "string \<Rightarrow> string" where
  "rstrip_nl s = rev (dropWhile (\<lambda>c. c = NL) (rev s))"

text \<open>Iterating over a text file yields its lines, each with its terminating newline
  (the last line may lack one). The text is the file's content after the newline
  translation of text mode.\<close>

fun lines_acc :: "string \<Rightarrow> string \<Rightarrow> string list" where
  "lines_acc acc [] = (if acc = [] then [] else [rev acc])"
| "lines_acc acc (c # cs) =
     (if c = NL then rev (c # acc) # lines_acc [] cs else lines_acc (c # acc) cs)"

definition file_lines :: "string \<Rightarrow> string list" where
  "file_lines s = lines_acc [] s"

text \<open>\<^verbatim>\<open>s.endswith(suf)\<close>.\<close>

definition ends_with :: "string \<Rightarrow> string \<Rightarrow> bool" where
  "ends_with s suf = (length suf \<le> length s \<and> drop (length s - length suf) s = suf)"

section \<open>Exceptions and results\<close>

datatype exn =
    ValueError string
  | AttributeError string
  | IndexError
  | FileNotFoundError
  | FileExistsError
  | NotADirectoryError
  | IsADirectoryError
  | SameFileError
  | NotJSONError
  | CellExecutionError
  | OtherError
  | CalledProcessError int

datatype 'a res = Ret 'a | Raise exn

section \<open>The release version string\<close>

text \<open>
  \<^verbatim>\<open>[line.rstrip("\n").split(" ")[1] for line in open(...)]\<close>: the comprehension runs
  over every line of the file and raises \<^verbatim>\<open>IndexError\<close> at the first line without a
  second field.
\<close>

definition second_field :: "string \<Rightarrow> exn + string" where
  "second_field line =
     (case split_on CHR '' '' (rstrip_nl line) of
        _ # f # _ \<Rightarrow> Inr f
      | _ \<Rightarrow> Inl IndexError)"

fun version_list :: "string list \<Rightarrow> exn + string list" where
  "version_list [] = Inr []"
| "version_list (l # ls) =
     (case second_field l of
        Inl e \<Rightarrow> Inl e
      | Inr f \<Rightarrow> (case version_list ls of Inl e \<Rightarrow> Inl e | Inr fs \<Rightarrow> Inr (f # fs)))"

text \<open>\<^verbatim>\<open>release_version = ".".join(version_list[:3])\<close>, from the text of the version file.\<close>

definition release_version :: "string \<Rightarrow> exn + string" where
  "release_version txt =
     (case version_list (file_lines txt) of
        Inl e \<Rightarrow> Inl e
      | Inr vs \<Rightarrow> Inr (join ''.'' (take 3 vs)))"

section \<open>The world: environment, file system, console\<close>

text \<open>
  A path is the list of its components (\<^verbatim>\<open>os.path.join\<close> and \<^verbatim>\<open>Path.__truediv__\<close> append
  a component, \<^verbatim>\<open>Path.parent\<close> drops the last one); paths are not normalised. A notebook
  is the list of its cells; of a cell the script reads the type, the source, the outputs
  and the execution count (the last two may be absent or null).
\<close>

type_synonym path = "string list"

record cell =
  cell_type :: string
  source :: string
  outputs :: "string list option"
  execution_count :: "int option"

record notebook =
  cells :: "cell list"

text \<open>A file holds text, or a notebook document (what \<^verbatim>\<open>nbformat.read\<close> returns for it
  and \<^verbatim>\<open>nbformat.write\<close> stores).\<close>

datatype content = Text string | Notebook notebook

record filesys =
  dirs :: "path list"
  files :: "(path \<times> content) list"

record world =
  environ :: "string \<rightharpoonup> string"
  fs :: filesys
  stdout :: "string list"

definition path_str :: "path \<Rightarrow> string" where
  "path_str p = join ''/'' p"

definition path_name :: "path \<Rightarrow> string" where
  "path_name p = (if p = [] then [] else last p)"

definition is_dir :: "filesys \<Rightarrow> path \<Rightarrow> bool" where
  "is_dir f p = (p \<in> set (dirs f))"

definition is_file :: "filesys \<Rightarrow> path \<Rightarrow> bool" where
  "is_file f p = (map_of (files f) p \<noteq> None)"

definition path_exists :: "filesys \<Rightarrow> path \<Rightarrow> bool" where
  "path_exists f p = (is_dir f p \<or> is_file f p)"

text \<open>A file system is a tree: the parent of every entry is a directory.\<close>

definition fs_ok :: "filesys \<Rightarrow> bool" where
  "fs_ok f =
     ((\<forall>d \<in> set (dirs f). d \<noteq> [] \<longrightarrow> butlast d \<in> set (dirs f)) \<and>
      (\<forall>q \<in> set (map fst (files f)). q \<noteq> [] \<and> butlast q \<in> set (dirs f)))"

subsection \<open>Library calls on the file system\<close>

text \<open>\<^verbatim>\<open>shutil.rmtree(p)\<close>: removes the directory and everything below it.\<close>

definition rmtree :: "path \<Rightarrow> filesys \<Rightarrow> exn + filesys" where
  "rmtree p f =
     (if is_dir f p then
        Inr \<lparr>dirs = filter (\<lambda>d. \<not> prefix p d) (dirs f),
             files = filter (\<lambda>(q, c). \<not> prefix p q) (files f)\<rparr>
      else if is_file f p then Inl NotADirectoryError
      else Inl FileNotFoundError)"

text \<open>\<^verbatim>\<open>os.makedirs(p)\<close>: creates the directory and its missing ancestors; fails when the
  path exists or an ancestor is a file.\<close>

definition makedirs :: "path \<Rightarrow> filesys \<Rightarrow> exn + filesys" where
  "makedirs p f =
     (if path_exists f p then Inl FileExistsError
      else if list_ex (is_file f) (prefixes p) then Inl NotADirectoryError
      else Inr (f\<lparr>dirs := dirs f @ filter (\<lambda>q. \<not> is_dir f q) (prefixes p)\<rparr>))"

text \<open>\<^verbatim>\<open>open(p, "w")\<close> followed by a write of the whole content.\<close>

definition write_file :: "path \<Rightarrow> content \<Rightarrow> filesys \<Rightarrow> exn + filesys" where
  "write_file p c f =
     (if is_dir f p then Inl IsADirectoryError
      else if \<not> is_dir f (butlast p) then Inl FileNotFoundError
      else Inr (f\<lparr>files := AList.update p c (files f)\<rparr>))"

text \<open>\<^verbatim>\<open>open(p)\<close> followed by a read of the whole content.\<close>

definition read_file :: "path \<Rightarrow> filesys \<Rightarrow> exn + content" where
  "read_file p f =
     (if is_dir f p then Inl IsADirectoryError
      else case map_of (files f) p of
             None \<Rightarrow> Inl FileNotFoundError
           | Some c \<Rightarrow> Inr c)"

definition read_text :: "path \<Rightarrow> filesys \<Rightarrow> exn + string" where
  "read_text p f =
     (case read_file p f of
        Inl e \<Rightarrow> Inl e
      | Inr (Text s) \<Rightarrow> Inr s
      | Inr (Notebook nb) \<Rightarrow> Inl OtherError)"

text \<open>\<^verbatim>\<open>nbformat.read(f, as_version=4)\<close> on the opened file.\<close>

definition read_notebook :: "path \<Rightarrow> filesys \<Rightarrow> exn + notebook" where
  "read_notebook p f =
     (case read_file p f of
        Inl e \<Rightarrow> Inl e
      | Inr (Notebook nb) \<Rightarrow> Inr nb
      | Inr (Text s) \<Rightarrow> Inl NotJSONError)"

text \<open>\<^verbatim>\<open>shutil.copytree(src, dst)\<close>: \<open>dst\<close> must not exist; it is created with its missing
  ancestors and receives a copy of everything below \<open>src\<close>.\<close>

definition rebase :: "path \<Rightarrow> path \<Rightarrow> path \<Rightarrow> path" where
  "rebase src dst q = dst @ drop (length src) q"

definition copytree :: "path \<Rightarrow> path \<Rightarrow> filesys \<Rightarrow> exn + filesys" where
  "copytree src dst f =
     (if \<not> is_dir f src then
        (if is_file f src then Inl NotADirectoryError else Inl FileNotFoundError)
      else case makedirs dst f of
             Inl e \<Rightarrow> Inl e
           | Inr f1 \<Rightarrow>
               Inr \<lparr>dirs = dirs f1 @
                        filter (\<lambda>d. \<not> is_dir f1 d)
                          (map (rebase src dst) (filter (strict_prefix src) (dirs f))),
                    files = fold (\<lambda>(q, c). AList.update (rebase src dst q) c)
                          (filter (\<lambda>(q, c). prefix src q) (files f)) (files f1)\<rparr>)"

text \<open>\<^verbatim>\<open>shutil.copy(src, dst)\<close>: copies one file; a directory as destination receives the
  file under its own name.\<close>

definition copy_file :: "path \<Rightarrow> path \<Rightarrow> filesys \<Rightarrow> exn + filesys" where
  "copy_file src dst f =
     (let target = (if is_dir f dst then dst @ [path_name src] else dst) in
      case read_file src f of
        Inl e \<Rightarrow> Inl e
      | Inr c \<Rightarrow> if src = target then Inl SameFileError else write_file target c f)"

text \<open>\<^verbatim>\<open>Path.unlink()\<close>.\<close>

definition unlink :: "path \<Rightarrow> filesys \<Rightarrow> exn + filesys" where
  "unlink p f =
     (if is_dir f p then Inl IsADirectoryError
      else if is_file f p then Inr (f\<lparr>files := AList.delete p (files f)\<rparr>)
      else Inl FileNotFoundError)"

text \<open>\<^verbatim>\<open>d.glob("*.ipynb")\<close>: the entries of the directory whose names end in
  \<^verbatim>\<open>.ipynb\<close>, in the order of the listing; nothing when the directory does not exist.\<close>

definition glob_ipynb :: "filesys \<Rightarrow> path \<Rightarrow> path list" where
  "glob_ipynb f d =
     (if is_dir f d then
        remdups (filter (\<lambda>q. q \<noteq> [] \<and> butlast q = d \<and> ends_with (last q) ''.ipynb'')
                   (map fst (files f) @ dirs f))
      else [])"

subsection \<open>Statements: a world in, a result and a world out\<close>

definition and_then ::
  "(world \<Rightarrow> 'a res \<times> world) \<Rightarrow> ('a \<Rightarrow> world \<Rightarrow> 'b res \<times> world) \<Rightarrow> world \<Rightarrow> 'b res \<times> world" where
  "and_then f g w = (case f w of (Ret x, w') \<Rightarrow> g x w' | (Raise e, w') \<Rightarrow> (Raise e, w'))"

definition seq ::
  "(world \<Rightarrow> unit res \<times> world) \<Rightarrow> (world \<Rightarrow> 'b res \<times> world) \<Rightarrow> world \<Rightarrow> 'b res \<times> world" where
  "seq f g = and_then f (\<lambda>_. g)"

definition skip :: "world \<Rightarrow> unit res \<times> world" where
  "skip w = (Ret (), w)"

definition raise :: "exn \<Rightarrow> world \<Rightarrow> 'a res \<times> world" where
  "raise e w = (Raise e, w)"

definition print :: "string \<Rightarrow> world \<Rightarrow> unit res \<times> world" where
  "print s w = (Ret (), w\<lparr>stdout := stdout w @ [s]\<rparr>)"

definition lift_fs :: "(filesys \<Rightarrow> exn + filesys) \<Rightarrow> world \<Rightarrow> unit res \<times> world" where
  "lift_fs op w = (case op (fs w) of Inl e \<Rightarrow> (Raise e, w) | Inr f \<Rightarrow> (Ret (), w\<lparr>fs := f\<rparr>))"

text \<open>A \<^verbatim>\<open>for\<close> loop over a list: the first exception ends it.\<close>

fun for_each :: "('a \<Rightarrow> world \<Rightarrow> unit res \<times> world) \<Rightarrow> 'a list \<Rightarrow> world \<Rightarrow> unit res \<times> world" where
  "for_each body [] w = (Ret (), w)"
| "for_each body (x # xs) w =
     (case body x w of
        (Ret _, w') \<Rightarrow> for_each body xs w'
      | (Raise e, w') \<Rightarrow> (Raise e, w'))"

section \<open>Python objects and the tools outside the script\<close>

text \<open>
  An object has a kind, which \<^verbatim>\<open>inspect.isclass\<close> and \<^verbatim>\<open>inspect.isbuiltin\<close> test, and
  attributes: the (name, value) pairs that \<^verbatim>\<open>inspect.getmembers\<close> lists and
  \<^verbatim>\<open>getattr\<close> looks up.
\<close>

datatype pykind = Module | Class | Builtin | Other

datatype pyobj = PyObj (kind: pykind) (attrs: "(string \<times> pyobj) list")

definition getmembers :: "pyobj \<Rightarrow> (string \<times> pyobj) list" where
  "getmembers obj = attrs obj"

definition isclass :: "pyobj \<Rightarrow> bool" where
  "isclass obj = (kind obj = Class)"

definition isbuiltin :: "pyobj \<Rightarrow> bool" where
  "isbuiltin obj = (kind obj = Builtin)"

definition getattr :: "pyobj \<Rightarrow> string \<Rightarrow> exn + pyobj" where
  "getattr obj name =
     (case map_of (attrs obj) name of
        None \<Rightarrow> Inl (AttributeError name)
      | Some v \<Rightarrow> Inr v)"

text \<open>
  What the script calls and does not define: \<^verbatim>\<open>importlib.import_module\<close> (\<open>None\<close> stands
  for \<^verbatim>\<open>ImportError\<close>), the loaded root module \<^verbatim>\<open>open3d\<close>, the notebook executor
  \<^verbatim>\<open>ExecutePreprocessor.preprocess\<close> (it changes the notebook in place and may raise;
  the kernel it starts inherits the environment), and the programs started with
  \<^verbatim>\<open>subprocess.check_call\<close> (they inherit the environment, change the file system and
  return an exit code).
\<close>

record externals =
  import_module :: "string \<Rightarrow> pyobj option"
  open3d :: pyobj
  preprocess :: "(string \<rightharpoonup> string) \<Rightarrow> path \<Rightarrow> notebook \<Rightarrow> exn option \<times> notebook"
  run_tool :: "string list \<Rightarrow> (string \<rightharpoonup> string) \<Rightarrow> filesys \<Rightarrow> int \<times> filesys"

definition check_call :: "externals \<Rightarrow> string list \<Rightarrow> world \<Rightarrow> unit res \<times> world" where
  "check_call X cmd w =
     (case run_tool X cmd (environ w) (fs w) of
        (rc, f) \<Rightarrow>
          if rc = 0 then (Ret (), w\<lparr>fs := f\<rparr>)
          else (Raise (CalledProcessError rc), w\<lparr>fs := f\<rparr>))"

section \<open>\<^verbatim>\<open>_create_or_clear_dir\<close>\<close>

definition create_or_clear_dir :: "path \<Rightarrow> world \<Rightarrow> unit res \<times> world" where
  "create_or_clear_dir dir_path =
     seq (\<lambda>w. if path_exists (fs w) dir_path
               then seq (lift_fs (rmtree dir_path))
                        (print (''Removed directory '' @ path_str dir_path)) w
               else skip w)
    (seq (lift_fs (makedirs dir_path))
         (print (''Created directory '' @ path_str dir_path)))"

section \<open>\<^verbatim>\<open>PyAPIDocsBuilder\<close>\<close>

record py_api_docs_builder =
  output_dir :: path
  module_names :: "string list"

definition PyAPIDocsBuilder_init ::
  "path \<Rightarrow> string list \<Rightarrow> world \<Rightarrow> py_api_docs_builder res \<times> world" where
  "PyAPIDocsBuilder_init out names =
     seq (print (''Generating *.rst Python API docs in directory: '' @ path_str out))
         (\<lambda>w. (Ret \<lparr>output_dir = out, module_names = names\<rparr>, w))"

text \<open>\<^verbatim>\<open>_get_open3d_module\<close>: the direct import, and on \<^verbatim>\<open>ImportError\<close> the traversal of
  \<^verbatim>\<open>full_module_name.split(".")[1:]\<close> from the root module.\<close>

fun traverse :: "pyobj \<Rightarrow> string list \<Rightarrow> exn + pyobj" where
  "traverse current_module [] = Inr current_module"
| "traverse current_module (sub_module_name # rest) =
     (case getattr current_module sub_module_name of
        Inl e \<Rightarrow> Inl e
      | Inr m \<Rightarrow> traverse m rest)"

definition get_open3d_module :: "externals \<Rightarrow> string \<Rightarrow> exn + pyobj" where
  "get_open3d_module X full_module_name =
     (case import_module X full_module_name of
        Some module \<Rightarrow> Inr module
      | None \<Rightarrow> traverse (open3d X) (tl (split_on CHR ''.'' full_module_name)))"

definition function_doc_text :: "string \<Rightarrow> string \<Rightarrow> string" where
  "function_doc_text sub_module_full_name function_name =
     (let out = sub_module_full_name @ ''.'' @ function_name;
          out = out @ [NL] @ replicate (length out) CHR ''-'';
          out = out @ [NL, NL] @ ''.. currentmodule:: '' @ sub_module_full_name;
          out = out @ [NL, NL] @ ''.. autofunction:: '' @ function_name;
          out = out @ [NL]
      in out)"

definition generate_function_doc :: "string \<Rightarrow> string \<Rightarrow> path \<Rightarrow> world \<Rightarrow> unit res \<times> world" where
  "generate_function_doc sub_module_full_name function_name output_path =
     lift_fs (write_file output_path (Text (function_doc_text sub_module_full_name function_name)))"

definition class_doc_text :: "string \<Rightarrow> string \<Rightarrow> string" where
  "class_doc_text sub_module_full_name class_name =
     (let out = sub_module_full_name @ ''.'' @ class_name;
          out = out @ [NL] @ replicate (length out) CHR ''-'';
          out = out @ [NL, NL] @ ''.. currentmodule:: '' @ sub_module_full_name;
          out = out @ [NL, NL] @ ''.. autoclass:: '' @ class_name;
          out = out @ [NL] @ ''    :members:'';
          out = out @ [NL] @ ''    :undoc-members:'';
          out = out @ [NL] @ ''    :inherited-members:'';
          out = out @ [NL]
      in out)"

definition generate_class_doc :: "string \<Rightarrow> string \<Rightarrow> path \<Rightarrow> world \<Rightarrow> unit res \<times> world" where
  "generate_class_doc sub_module_full_name class_name output_path =
     lift_fs (write_file output_path (Text (class_doc_text sub_module_full_name class_name)))"

text \<open>\<^verbatim>\<open>_generate_sub_module_doc\<close>. The text is built from the two name lists after they
  have been rebound to their sorted copies (\<open>sub_module_doc_body\<close>).\<close>

definition summary_lines :: "string \<Rightarrow> string list \<Rightarrow> string" where
  "summary_lines out names = foldl (\<lambda>out name. out @ [NL] @ ''    '' @ name) out names"

definition toctree_lines :: "string \<Rightarrow> string \<Rightarrow> string list \<Rightarrow> string" where
  "toctree_lines sub_module_full_name out obj_names =
     foldl (\<lambda>out obj_name.
              out @ [NL] @ ''    '' @ obj_name @ '' <'' @ sub_module_full_name @ ''.'' @ obj_name @ ''>'')
       out obj_names"

definition sub_module_doc_body :: "string \<Rightarrow> string list \<Rightarrow> string list \<Rightarrow> string" where
  "sub_module_doc_body sub_module_full_name class_names function_names =
     (let out = sub_module_full_name;
          out = out @ [NL] @ replicate (length out) CHR ''-'';
          out = out @ [NL, NL] @ ''.. currentmodule:: '' @ sub_module_full_name;
          out = (if length class_names > 0
                 then summary_lines (out @ [NL, NL] @ ''**Classes**'' @ [NL, NL] @ ''.. autosummary::'' @ [NL])
                        class_names @ [NL]
                 else out);
          out = (if length function_names > 0
                 then summary_lines (out @ [NL, NL] @ ''**Functions**'' @ [NL, NL] @ ''.. autosummary::'' @ [NL])
                        function_names @ [NL]
                 else out);
          obj_names = class_names @ function_names;
          out = (if length obj_names > 0
                 then toctree_lines sub_module_full_name
                        (out @ [NL, NL] @ ''.. toctree::'' @ [NL] @ ''    :hidden:'' @ [NL])
                        obj_names @ [NL]
                 else out)
      in out)"

definition sub_module_doc_text :: "string \<Rightarrow> string list \<Rightarrow> string list \<Rightarrow> string" where
  "sub_module_doc_text sub_module_full_name class_names function_names =
     sub_module_doc_body sub_module_full_name (sort class_names) (sort function_names)"

definition generate_sub_module_doc ::
  "string \<Rightarrow> string list \<Rightarrow> string list \<Rightarrow> path \<Rightarrow> world \<Rightarrow> unit res \<times> world" where
  "generate_sub_module_doc sub_module_full_name class_names function_names sub_module_doc_path =
     lift_fs (write_file sub_module_doc_path
                (Text (sub_module_doc_text sub_module_full_name class_names function_names)))"

text \<open>\<^verbatim>\<open>_generate_sub_module_class_function_docs\<close>.\<close>

definition class_names_of :: "pyobj \<Rightarrow> string list" where
  "class_names_of sub_module = map fst (filter (\<lambda>obj. isclass (snd obj)) (getmembers sub_module))"

definition function_names_of :: "pyobj \<Rightarrow> string list" where
  "function_names_of sub_module = map fst (filter (\<lambda>obj. isbuiltin (snd obj)) (getmembers sub_module))"

definition member_file :: "path \<Rightarrow> string \<Rightarrow> string \<Rightarrow> path" where
  "member_file out sub_module_full_name name = out @ [sub_module_full_name @ ''.'' @ name @ ''.rst'']"

definition module_file :: "path \<Rightarrow> string \<Rightarrow> path" where
  "module_file out sub_module_full_name = out @ [sub_module_full_name @ ''.rst'']"

definition generate_sub_module_class_function_docs ::
  "string \<Rightarrow> pyobj \<Rightarrow> path \<Rightarrow> world \<Rightarrow> unit res \<times> world" where
  "generate_sub_module_class_function_docs sub_module_full_name sub_module out =
     (let class_names = class_names_of sub_module;
          function_names = function_names_of sub_module
      in
      seq (print (''Generating docs for submodule: '' @ sub_module_full_name))
     (seq (for_each (\<lambda>class_name.
                 generate_class_doc sub_module_full_name class_name
                   (member_file out sub_module_full_name class_name)) class_names)
     (seq (for_each (\<lambda>function_name.
                 generate_function_doc sub_module_full_name function_name
                   (member_file out sub_module_full_name function_name)) function_names)
          (generate_sub_module_doc sub_module_full_name class_names function_names
             (module_file out sub_module_full_name)))))"

text \<open>\<^verbatim>\<open>generate_rst\<close>.\<close>

definition generate_module :: "externals \<Rightarrow> path \<Rightarrow> string \<Rightarrow> world \<Rightarrow> unit res \<times> world" where
  "generate_module X out module_name w =
     (case get_open3d_module X module_name of
        Inl e \<Rightarrow> (Raise e, w)
      | Inr module \<Rightarrow> generate_sub_module_class_function_docs module_name module out w)"

definition generate_rst :: "externals \<Rightarrow> py_api_docs_builder \<Rightarrow> world \<Rightarrow> unit res \<times> world" where
  "generate_rst X self =
     seq (create_or_clear_dir (output_dir self))
         (for_each (generate_module X (output_dir self)) (module_names self))"

section \<open>\<^verbatim>\<open>SphinxDocsBuilder\<close>\<close>

record sphinx_docs_builder =
  documented_modules :: "string list"
  python_api_output_dir :: path
  html_output_dir :: path
  is_release :: bool

text \<open>\<^verbatim>\<open>re.match("^\s*python_api/(.*)\s*$", line)\<close> on a line of the file: the group is what
  follows \<^verbatim>\<open>python_api/\<close> up to the end of the line. \<open>is_space\<close> holds of the ASCII
  characters that \<^verbatim>\<open>\s\<close> matches.\<close>

definition is_space :: "char \<Rightarrow> bool" where
  "is_space c =
     (c \<in> {CHR '' '', CHR 0x09, CHR 0x0A, CHR 0x0B, CHR 0x0C, CHR 0x0D,
            CHR 0x1C, CHR 0x1D, CHR 0x1E, CHR 0x1F})"

definition match_python_api :: "string \<Rightarrow> string option" where
  "match_python_api line =
     (let l = dropWhile is_space line in
      if prefix ''python_api/'' l
      then Some (takeWhile (\<lambda>c. c \<noteq> NL) (drop (length ''python_api/'') l))
      else None)"

definition get_module_names_from_index_rst :: "world \<Rightarrow> string list res \<times> world" where
  "get_module_names_from_index_rst w =
     (case read_text [''index.rst''] (fs w) of
        Inl e \<Rightarrow> (Raise e, w)
      | Inr txt \<Rightarrow> (Ret (List.map_filter match_python_api (file_lines txt)), w))"

definition SphinxDocsBuilder_init ::
  "path \<Rightarrow> bool \<Rightarrow> world \<Rightarrow> sphinx_docs_builder res \<times> world" where
  "SphinxDocsBuilder_init html_out release =
     and_then get_module_names_from_index_rst
       (\<lambda>names w. (Ret \<lparr>documented_modules = names, python_api_output_dir = [''python_api''],
                        html_output_dir = html_out, is_release = release\<rparr>, w))"

definition gen_python_api_docs :: "externals \<Rightarrow> sphinx_docs_builder \<Rightarrow> world \<Rightarrow> unit res \<times> world" where
  "gen_python_api_docs X self =
     and_then (PyAPIDocsBuilder_init (python_api_output_dir self) (documented_modules self))
       (\<lambda>pd. generate_rst X pd)"

definition version_file :: path where
  "version_file = [''..'', ''src'', ''Open3D'', ''version.txt'']"

text \<open>The command line of \<^verbatim>\<open>_run_sphinx\<close>.\<close>

definition release_cmd :: "string \<Rightarrow> string \<Rightarrow> string list" where
  "release_cmd version build_dir =
     [''sphinx-build'', ''-b'', ''html'', ''-D'', ''version='' @ version,
      ''-D'', ''release='' @ version, ''.'', build_dir]"

definition plain_cmd :: "string \<Rightarrow> string list" where
  "plain_cmd build_dir = [''sphinx-build'', ''-b'', ''html'', ''.'', build_dir]"

definition call_cmd :: "externals \<Rightarrow> string list \<Rightarrow> world \<Rightarrow> unit res \<times> world" where
  "call_cmd X cmd =
     seq (print (''Calling: \"'' @ join '' '' cmd @ ''\"''))
         (check_call X cmd)"

definition run_sphinx :: "externals \<Rightarrow> sphinx_docs_builder \<Rightarrow> world \<Rightarrow> unit res \<times> world" where
  "run_sphinx X self w =
     (let build_dir = path_str (html_output_dir self @ [''html'']) in
      if is_release self then
        (case read_text version_file (fs w) of
           Inl e \<Rightarrow> (Raise e, w)
         | Inr txt \<Rightarrow>
             (case release_version txt of
                Inl e \<Rightarrow> (Raise e, w)
              | Inr v \<Rightarrow>
                  seq (print (''Building docs for release: '' @ v))
                      (call_cmd X (release_cmd v build_dir)) w))
      else call_cmd X (plain_cmd build_dir) w)"

definition SphinxDocsBuilder_run :: "externals \<Rightarrow> sphinx_docs_builder \<Rightarrow> world \<Rightarrow> unit res \<times> world" where
  "SphinxDocsBuilder_run X self = seq (gen_python_api_docs X self) (run_sphinx X self)"

section \<open>\<^verbatim>\<open>DoxygenDocsBuilder\<close>\<close>

definition DoxygenDocsBuilder_run :: "externals \<Rightarrow> path \<Rightarrow> world \<Rightarrow> unit res \<times> world" where
  "DoxygenDocsBuilder_run X html_out =
     (let doxygen_temp_dir = [''doxygen''] in
      seq (create_or_clear_dir doxygen_temp_dir)
     (seq (call_cmd X [''doxygen'', ''Doxyfile''])
     (seq (lift_fs (copytree [''doxygen'', ''html''] (html_out @ [''html'', ''cpp_api''])))
          (\<lambda>w. if path_exists (fs w) doxygen_temp_dir
                then lift_fs (rmtree doxygen_temp_dir) w
                else skip w))))"

section \<open>\<^verbatim>\<open>JupyterDocsBuilder\<close>\<close>

record jupyter_docs_builder =
  clean_notebooks :: bool
  execute_notebooks :: string
  current_file_dir :: path

definition JupyterDocsBuilder_init ::
  "path \<Rightarrow> bool \<Rightarrow> string \<Rightarrow> world \<Rightarrow> jupyter_docs_builder res \<times> world" where
  "JupyterDocsBuilder_init cur_dir clean mode =
     (if mode \<notin> {''auto'', ''always''}
      then raise (ValueError (''Invalid execute option: '' @ mode @ ''.''))
      else seq (print (''Notebook execution mode: '' @ mode))
               (\<lambda>w. (Ret \<lparr>clean_notebooks = clean, execute_notebooks = mode,
                           current_file_dir = cur_dir\<rparr>, w)))"

text \<open>The truth values of \<^verbatim>\<open>c.get("outputs")\<close> and \<^verbatim>\<open>c.get("execution_count")\<close>: an
  absent or null value, an empty list and the number 0 are false.\<close>

definition truthy_outputs :: "string list option \<Rightarrow> bool" where
  "truthy_outputs v = (case v of None \<Rightarrow> False | Some os \<Rightarrow> os \<noteq> [])"

definition truthy_count :: "int option \<Rightarrow> bool" where
  "truthy_count v = (case v of None \<Rightarrow> False | Some n \<Rightarrow> n \<noteq> 0)"

definition code_cells :: "notebook \<Rightarrow> cell list" where
  "code_cells nb = filter (\<lambda>c. cell_type c = ''code'') (cells nb)"

definition has_code :: "notebook \<Rightarrow> bool" where
  "has_code nb = list_ex (\<lambda>c. source c \<noteq> []) (code_cells nb)"

definition has_output :: "notebook \<Rightarrow> bool" where
  "has_output nb =
     list_ex (\<lambda>c. truthy_outputs (outputs c) \<or> truthy_count (execution_count c)) (code_cells nb)"

definition execute_decision :: "string \<Rightarrow> notebook \<Rightarrow> bool" where
  "execute_decision mode nb =
     ((mode = ''auto'' \<and> has_code nb \<and> \<not> has_output nb) \<or> mode = ''always'')"

definition bool_str :: "bool \<Rightarrow> string" where
  "bool_str b = (if b then ''True'' else ''False'')"

text \<open>The body of the loop over \<^verbatim>\<open>nb_paths\<close>.\<close>

definition write_notebook :: "path \<Rightarrow> notebook \<Rightarrow> world \<Rightarrow> unit res \<times> world" where
  "write_notebook nb_path nb = lift_fs (write_file nb_path (Notebook nb))"

definition execute_notebook :: "externals \<Rightarrow> path \<Rightarrow> notebook \<Rightarrow> world \<Rightarrow> unit res \<times> world" where
  "execute_notebook X nb_path nb w =
     (case preprocess X (environ w) (butlast nb_path) nb of
        (r, nb') \<Rightarrow>
          seq (case r of
                 None \<Rightarrow> skip
               | Some CellExecutionError \<Rightarrow>
                   seq (print (''Execution of '' @ path_name nb_path @
                               '' failed, this will cause Travis to fail.''))
                       (\<lambda>w. if ''TRAVIS'' \<in> dom (environ w)
                             then raise CellExecutionError w
                             else skip w)
               | Some e \<Rightarrow> raise e)
              (write_notebook nb_path nb') w)"

definition process_notebook ::
  "externals \<Rightarrow> jupyter_docs_builder \<Rightarrow> path \<Rightarrow> world \<Rightarrow> unit res \<times> world" where
  "process_notebook X self nb_path =
     seq (print (''[Processing notebook '' @ path_name nb_path @ '']''))
         (\<lambda>w. case read_notebook nb_path (fs w) of
                 Inl e \<Rightarrow> (Raise e, w)
               | Inr nb \<Rightarrow>
                   (let execute = execute_decision (execute_notebooks self) nb in
                    seq (print (''has_code: '' @ bool_str (has_code nb) @
                                '', has_output: '' @ bool_str (has_output nb) @
                                '', execute: '' @ bool_str execute))
                        (if execute then execute_notebook X nb_path nb else skip) w))"

text \<open>The loop that copies the notebooks of one example directory and collects their
  paths in \<^verbatim>\<open>nb_paths\<close>.\<close>

fun stage_notebooks :: "path \<Rightarrow> path list \<Rightarrow> path list \<Rightarrow> world \<Rightarrow> path list res \<times> world" where
  "stage_notebooks out_dir [] nb_paths w = (Ret nb_paths, w)"
| "stage_notebooks out_dir (nb_in_path # rest) nb_paths w =
     (let nb_out_path = out_dir @ [path_name nb_in_path] in
      case (if \<not> is_file (fs w) nb_out_path
            then seq (print (''Copy: '' @ path_str nb_in_path @ [NL] @ ''   -> '' @ path_str nb_out_path))
                     (lift_fs (copy_file nb_in_path nb_out_path)) w
            else print ''Copy skipped: {}.format(nb_out_path)'' w) of
        (Ret _, w') \<Rightarrow> stage_notebooks out_dir rest (nb_paths @ [nb_out_path]) w'
      | (Raise e, w') \<Rightarrow> (Raise e, w'))"

definition stage_dir ::
  "jupyter_docs_builder \<Rightarrow> string \<Rightarrow> path list \<Rightarrow> world \<Rightarrow> path list res \<times> world" where
  "stage_dir self example_dir nb_paths =
     (let in_dir = butlast (current_file_dir self) @ [''examples'', ''Python'', example_dir];
          out_dir = current_file_dir self @ [''tutorial'', example_dir]
      in
      seq (lift_fs (copy_file (butlast in_dir @ [''open3d_tutorial.py''])
                      (butlast out_dir @ [''open3d_tutorial.py''])))
     (seq (\<lambda>w. if clean_notebooks self
                then for_each (\<lambda>nb_out_path.
                         seq (print (''Delete: '' @ path_str nb_out_path))
                             (lift_fs (unlink nb_out_path)))
                       (glob_ipynb (fs w) out_dir) w
                else skip w)
          (\<lambda>w. stage_notebooks out_dir (glob_ipynb (fs w) in_dir) nb_paths w)))"

fun stage_dirs ::
  "jupyter_docs_builder \<Rightarrow> string list \<Rightarrow> path list \<Rightarrow> world \<Rightarrow> path list res \<times> world" where
  "stage_dirs self [] nb_paths w = (Ret nb_paths, w)"
| "stage_dirs self (example_dir # rest) nb_paths w =
     (case stage_dir self example_dir nb_paths w of
        (Ret nb_paths', w') \<Rightarrow> stage_dirs self rest nb_paths' w'
      | (Raise e, w') \<Rightarrow> (Raise e, w'))"

definition setenv :: "string \<Rightarrow> string \<Rightarrow> world \<Rightarrow> unit res \<times> world" where
  "setenv k v w = (Ret (), w\<lparr>environ := (environ w)(k \<mapsto> v)\<rparr>)"

text \<open>What \<^verbatim>\<open>run\<close> does after the assignment to \<^verbatim>\<open>os.environ["CI"]\<close>.\<close>

definition stage_and_execute ::
  "externals \<Rightarrow> jupyter_docs_builder \<Rightarrow> world \<Rightarrow> unit res \<times> world" where
  "stage_and_execute X self =
     (let test_data_in_dir = butlast (current_file_dir self) @ [''examples'', ''TestData''];
          test_data_out_dir = current_file_dir self @ [''TestData'']
      in
      seq (\<lambda>w. if path_exists (fs w) test_data_out_dir
                then lift_fs (rmtree test_data_out_dir) w
                else skip w)
     (seq (lift_fs (copytree test_data_in_dir test_data_out_dir))
     (and_then (stage_dirs self [''Basic'', ''Advanced''] [])
        (\<lambda>nb_paths. for_each (process_notebook X self) nb_paths))))"

definition JupyterDocsBuilder_run ::
  "externals \<Rightarrow> jupyter_docs_builder \<Rightarrow> world \<Rightarrow> unit res \<times> world" where
  "JupyterDocsBuilder_run X self =
     seq (setenv ''CI'' ''true'') (stage_and_execute X self)"

section \<open>The script\<close>

record args =
  arg_clean_notebooks :: bool
  arg_execute_notebooks :: string
  build_sphinx :: bool
  build_doxygen :: bool
  arg_is_release :: bool

definition sphinx_part :: "externals \<Rightarrow> args \<Rightarrow> path \<Rightarrow> path \<Rightarrow> world \<Rightarrow> unit res \<times> world" where
  "sphinx_part X a pwd html_out =
     seq (print ''Sphinx build enabled'')
    (seq (print ''Building Jupyter docs'')
    (and_then (JupyterDocsBuilder_init pwd (arg_clean_notebooks a) (arg_execute_notebooks a))
       (\<lambda>jdb.
          seq (JupyterDocsBuilder_run X jdb)
         (seq (print ''Building Sphinx docs'')
         (and_then (SphinxDocsBuilder_init html_out (arg_is_release a))
            (\<lambda>sdb. SphinxDocsBuilder_run X sdb))))))"

definition main :: "externals \<Rightarrow> args \<Rightarrow> path \<Rightarrow> world \<Rightarrow> unit res \<times> world" where
  "main X a pwd =
     (let html_out = pwd @ [''_out''];
          cpp_build_dir = pwd @ [''_static'', ''C++'', ''build'']
      in
      seq (create_or_clear_dir html_out)
     (seq (\<lambda>w. if path_exists (fs w) cpp_build_dir
                then seq (lift_fs (rmtree cpp_build_dir))
                         (print (''Removed directory '' @ path_str cpp_build_dir)) w
                else skip w)
     (seq (if build_sphinx a then sphinx_part X a pwd html_out
           else print ''Sphinx build disabled, use --sphinx to enable'')
          (if build_doxygen a
           then seq (print ''Doxygen build enabled'') (DoxygenDocsBuilder_run X html_out)
           else print ''Doxygen build disabled, use --doxygen to enable''))))"

section \<open>The execution decision in the words of the specification\<close>




section \<open>The output of the reference emitter in the words of the specification\<close>


section \<open>Auxiliary notions\<close>

text \<open>The writes of \<^verbatim>\<open>_generate_sub_module_class_function_docs\<close> for one module, in the
  order of the code (class files, function files, module file), the writes of a whole
  run, and their effect on the file system.\<close>

definition apply_writes :: "(path \<times> content) list \<Rightarrow> filesys \<Rightarrow> filesys" where
  "apply_writes ws f = f\<lparr>files := fold (\<lambda>(p, c). AList.update p c) ws (files f)\<rparr>"

definition module_writes :: "string \<Rightarrow> pyobj \<Rightarrow> path \<Rightarrow> (path \<times> content) list" where
  "module_writes n m out =
     map (\<lambda>c. (member_file out n c, Text (class_doc_text n c))) (class_names_of m) @
     map (\<lambda>f. (member_file out n f, Text (function_doc_text n f))) (function_names_of m) @
     [(module_file out n, Text (sub_module_doc_text n (class_names_of m) (function_names_of m)))]"

definition all_writes :: "externals \<Rightarrow> path \<Rightarrow> string list \<Rightarrow> (path \<times> content) list" where
  "all_writes X out names =
     concat (map (\<lambda>n. case get_open3d_module X n of
                         Inl e \<Rightarrow> []
                       | Inr m \<Rightarrow> module_writes n m out) names)"

text \<open>A directory into which files can be written: it exists and has no subdirectory. A
  directory as \<^verbatim>\<open>_create_or_clear_dir\<close> leaves it: moreover empty, with directories (and
  no file) on the path to it.\<close>

definition writable :: "filesys \<Rightarrow> path \<Rightarrow> bool" where
  "writable f out = (is_dir f out \<and> (\<forall>d \<in> set (dirs f). \<not> strict_prefix out d))"

definition cleared :: "filesys \<Rightarrow> path \<Rightarrow> bool" where
  "cleared f out =
     (writable f out \<and>
      (\<forall>q. prefix out q \<longrightarrow> map_of (files f) q = None) \<and>
      (\<forall>q. prefix q out \<longrightarrow> map_of (files f) q = None \<and> q \<in> set (dirs f)))"

text \<open>A statement that leaves the environment variables as they are, whatever its outcome.\<close>

definition keeps_env :: "(world \<Rightarrow> 'a res \<times> world) \<Rightarrow> bool" where
  "keeps_env f = (\<forall>w. environ (snd (f w)) = environ w)"

text \<open>The second field of each line, dot-joined over the first three lines.\<close>

definition version_of_lines :: "string list \<Rightarrow> string" where
  "version_of_lines ls = join ''.'' (take 3 (map (\<lambda>l. split_on CHR '' '' (rstrip_nl l) ! 1) ls))"

section \<open>Example inputs\<close>

definition empty_world :: world where
  "empty_world = \<lparr>environ = Map.empty, fs = \<lparr>dirs = [[]], files = []\<rparr>, stdout = []\<rparr>"

definition camera_module :: pyobj where
  "camera_module =
     PyObj Module [(''PinholeCameraIntrinsic'', PyObj Class []),
                   (''read_pinhole_camera_intrinsic'', PyObj Builtin [])]"

definition root_module :: pyobj where
  "root_module = PyObj Module [(''camera'', camera_module)]"

definition example_externals :: externals where
  "example_externals =
     \<lparr>import_module = (\<lambda>name. None),
      open3d = root_module,
      preprocess = (\<lambda>env p nb. (None, nb)),
      run_tool = (\<lambda>cmd env f. (0, f))\<rparr>"

definition key_value_version_text :: string where
  "key_value_version_text =
     ''OPEN3D_VERSION_MAJOR 1'' @ [NL] @ ''OPEN3D_VERSION_MINOR 2'' @ [NL] @
     ''OPEN3D_VERSION_PATCH 3'' @ [NL]"

definition second_line_version_text :: string where
  "second_line_version_text =
     ''name Open3D'' @ [NL] @ ''version 1 2 3 extra'' @ [NL] @ ''license MIT'' @ [NL]"

definition release_world :: world where
  "release_world =
     \<lparr>environ = Map.empty,
      fs = \<lparr>dirs = [[], [''..''], [''..'', ''src''], [''..'', ''src'', ''Open3D'']],
            files = [(version_file, Text key_value_version_text)]\<rparr>,
      stdout = []\<rparr>"

definition release_builder :: sphinx_docs_builder where
  "release_builder =
     \<lparr>documented_modules = [], python_api_output_dir = [''python_api''],
      html_output_dir = [''_out''], is_release = True\<rparr>"


definition fresh_notebook :: notebook where
  "fresh_notebook =
     \<lparr>cells = [\<lparr>cell_type = ''markdown'', source = ''Title'', outputs = None,
                 execution_count = None\<rparr>,
               \<lparr>cell_type = ''code'', source = ''x = 1'', outputs = Some [],
                 execution_count = None\<rparr>]\<rparr>"


definition example_stager :: jupyter_docs_builder where
  "example_stager = \<lparr>clean_notebooks = False, execute_notebooks = ''auto'', current_file_dir = [''docs'']\<rparr>"

definition example_args :: args where
  "example_args =
     \<lparr>arg_clean_notebooks = False, arg_execute_notebooks = ''auto'', build_sphinx = True,
      build_doxygen = False, arg_is_release = False\<rparr>"

definition camera_builder :: py_api_docs_builder where
  "camera_builder = \<lparr>output_dir = [''python_api''], module_names = [''open3d.camera'']\<rparr>"

definition failing_externals :: externals where
  "failing_externals =
     example_externals
       \<lparr>preprocess := (\<lambda>env p nb.
          (Some CellExecutionError,
           nb\<lparr>cells := map (\<lambda>c. c\<lparr>outputs := Some [''error'']\<rparr>) (cells nb)\<rparr>))\<rparr>"

definition failed_notebook :: notebook where
  "failed_notebook = fresh_notebook\<lparr>cells := map (\<lambda>c. c\<lparr>outputs := Some [''error'']\<rparr>) (cells fresh_notebook)\<rparr>"

definition notebook_path :: path where
  "notebook_path = [''docs'', ''tutorial'', ''Basic'', ''a.ipynb'']"

definition notebook_world :: world where
  "notebook_world =
     \<lparr>environ = [''CI'' \<mapsto> ''true''],
      fs = \<lparr>dirs = [[], [''docs''], [''docs'', ''tutorial''], [''docs'', ''tutorial'', ''Basic'']],
            files = [(notebook_path, Notebook fresh_notebook)]\<rparr>,
      stdout = []\<rparr>"

definition travis_world :: world where
  "travis_world = notebook_world\<lparr>environ := [''CI'' \<mapsto> ''true'', ''TRAVIS'' \<mapsto> ''true'']\<rparr>"





definition nested_root :: pyobj where
  "nested_root =
     PyObj Module
       [(''camera'', camera_module),
        (''ml'', PyObj Module [(''tf'', PyObj Module [(''Model'', PyObj Class [])])])]"

definition nested_externals :: externals where
  "nested_externals = example_externals\<lparr>open3d := nested_root\<rparr>"

section \<open>Splitting a dotted name\<close>

lemma split_acc_no_sep:
  "sep \<notin> set s \<Longrightarrow> split_acc sep acc s = [rev acc @ s]"
  by (induction s arbitrary: acc) auto

lemma split_acc_sep:
  "sep \<notin> set x \<Longrightarrow> split_acc sep acc (x @ sep # rest) = (rev acc @ x) # split_acc sep [] rest"
  by (induction x arbitrary: acc) auto

lemma split_on_first:
  "sep \<notin> set x \<Longrightarrow> split_on sep (x @ sep # rest) = x # split_on sep rest"
  by (simp add: split_on_def split_acc_sep)

lemma split_on_no_sep: "sep \<notin> set s \<Longrightarrow> split_on sep s = [s]"
  by (simp add: split_on_def split_acc_no_sep)

lemma traverse_single: "traverse m [n] = getattr m n"
  by (simp split: sum.splits)

lemma fallback_traverse:
  assumes "CHR ''.'' \<notin> set x" and "import_module X (x @ ''.'' @ rest) = None"
  shows "get_open3d_module X (x @ ''.'' @ rest) = traverse (open3d X) (split_on CHR ''.'' rest)"
  using assms(2) split_on_first [OF assms(1), of rest] by (simp add: get_open3d_module_def)


section \<open>The release version (C1)\<close>

lemma second_field_char:
  "second_field l =
     (if 2 \<le> length (split_on CHR '' '' (rstrip_nl l))
      then Inr (split_on CHR '' '' (rstrip_nl l) ! 1) else Inl IndexError)"
proof (cases "split_on CHR '' '' (rstrip_nl l)")
  case Nil
  then show ?thesis by (simp add: second_field_def)
next
  case (Cons a as)
  then show ?thesis by (cases as) (simp_all add: second_field_def)
qed

lemma version_list_char:
  "version_list ls =
     (if \<forall>l \<in> set ls. 2 \<le> length (split_on CHR '' '' (rstrip_nl l))
      then Inr (map (\<lambda>l. split_on CHR '' '' (rstrip_nl l) ! 1) ls) else Inl IndexError)"
proof (induction ls)
  case Nil
  show ?case by simp
next
  case (Cons l ls)
  show ?case
    by (simp add: Cons.IH second_field_char)
qed

lemma release_version_char:
  "release_version txt =
     (if \<forall>l \<in> set (file_lines txt). 2 \<le> length (split_on CHR '' '' (rstrip_nl l))
      then Inr (version_of_lines (file_lines txt)) else Inl IndexError)"
  by (simp add: release_version_def version_list_char version_of_lines_def)

text \<open>
  C1, as the code has it. In release mode the version string handed to \<^verbatim>\<open>sphinx-build\<close>
  is made of the second space-separated field of each line of the version file: the
  fields of the first three lines, joined by dots. Every line of the file must have a
  second field; otherwise the build stops with an \<^verbatim>\<open>IndexError\<close> and the tool is not
  started.
\<close>

theorem run_sphinx_release_version:
  assumes "is_release self" and "read_text version_file (fs w) = Inr txt"
  shows "run_sphinx X self w =
     (if \<forall>l \<in> set (file_lines txt). 2 \<le> length (split_on CHR '' '' (rstrip_nl l))
      then seq (print (''Building docs for release: '' @ version_of_lines (file_lines txt)))
             (call_cmd X (release_cmd (version_of_lines (file_lines txt))
                (path_str (html_output_dir self @ [''html''])))) w
      else (Raise IndexError, w))"
  using assms
  by (simp add: run_sphinx_def release_version_char)

theorem run_sphinx_release_version_witness:
  "is_release release_builder \<and>
   read_text version_file (fs release_world) = Inr key_value_version_text \<and>
   run_sphinx example_externals release_builder release_world =
     seq (print ''Building docs for release: 1.2.3'')
       (call_cmd example_externals (release_cmd ''1.2.3'' ''_out/html'')) release_world"
proof -
  have r: "is_release release_builder"
    by (simp add: release_builder_def)
  have t: "read_text version_file (fs release_world) = Inr key_value_version_text"
    by (simp add: read_text_def read_file_def release_world_def is_dir_def version_file_def)
  have l: "file_lines key_value_version_text =
     [''OPEN3D_VERSION_MAJOR 1'' @ [NL], ''OPEN3D_VERSION_MINOR 2'' @ [NL],
      ''OPEN3D_VERSION_PATCH 3'' @ [NL]]"
    by (simp add: key_value_version_text_def file_lines_def)
  have v: "version_of_lines (file_lines key_value_version_text) = ''1.2.3''"
    by (simp add: l version_of_lines_def rstrip_nl_def split_on_def)
  have a: "\<forall>l \<in> set (file_lines key_value_version_text). 2 \<le> length (split_on CHR '' '' (rstrip_nl l))"
    by (simp add: l rstrip_nl_def split_on_def)
  have p: "path_str (html_output_dir release_builder @ [''html'']) = ''_out/html''"
    by (simp add: release_builder_def path_str_def)
  show ?thesis
    using run_sphinx_release_version [OF r t, of example_externals] r t a
    unfolding v p by simp
qed

text \<open>
  The claim as the specification words it fails: in a file whose second line is
  \<^verbatim>\<open>version 1 2 3 extra\<close> that line contributes its second field only.
\<close>

theorem second_line_version_counterexample:
  "file_lines second_line_version_text ! 1 = ''version 1 2 3 extra'' @ [NL] \<and>
   release_version second_line_version_text = Inr ''Open3D.1.MIT'' \<and>
   release_version second_line_version_text \<noteq> Inr ''1.2.3''"
  by (simp add: second_line_version_text_def file_lines_def release_version_def second_field_def
      rstrip_nl_def split_on_def)


section \<open>The constructor of the notebook stager (C6)\<close>

text \<open>
  C6. For every execution mode other than \<^verbatim>\<open>auto\<close> and \<^verbatim>\<open>always\<close> the constructor of
  \<^verbatim>\<open>JupyterDocsBuilder\<close> raises a \<^verbatim>\<open>ValueError\<close> and the world (environment, file system,
  console) is as it was before the call.
\<close>

theorem init_rejects_bad_mode:
  "mode \<notin> {''auto'', ''always''} \<Longrightarrow>
   JupyterDocsBuilder_init d c mode w =
     (Raise (ValueError (''Invalid execute option: '' @ mode @ ''.'')), w)"
  by (simp add: JupyterDocsBuilder_init_def raise_def)

theorem init_rejects_bad_mode_witness:
  "JupyterDocsBuilder_init [''docs''] False ''bogus'' empty_world =
     (Raise (ValueError ''Invalid execute option: bogus.''), empty_world)"
  using init_rejects_bad_mode [of "''bogus''" "[''docs'']" False empty_world]
  by simp

section \<open>The execution decision (C7)\<close>






section \<open>The environment variable \<^verbatim>\<open>CI\<close> (C9)\<close>

lemma keeps_envI: "(\<And>w. environ (snd (f w)) = environ w) \<Longrightarrow> keeps_env f"
  by (simp add: keeps_env_def)

lemma keeps_envD: "keeps_env f \<Longrightarrow> environ (snd (f w)) = environ w"
  by (simp add: keeps_env_def)

lemma keeps_env_skip: "keeps_env skip"
  by (simp add: keeps_env_def skip_def)

lemma keeps_env_raise: "keeps_env (raise e)"
  by (simp add: keeps_env_def raise_def)

lemma keeps_env_print: "keeps_env (print s)"
  by (simp add: keeps_env_def print_def)

lemma keeps_env_lift_fs: "keeps_env (lift_fs op)"
  by (simp add: keeps_env_def lift_fs_def split: sum.splits)

lemma keeps_env_ret: "keeps_env (\<lambda>w. (r, w))"
  by (simp add: keeps_env_def)

lemma keeps_env_and_then:
  assumes "keeps_env f" and "\<And>x. keeps_env (g x)"
  shows "keeps_env (and_then f g)"
proof (rule keeps_envI)
  fix w :: world
  show "environ (snd (and_then f g w)) = environ w"
  proof (cases "f w")
    case (Pair r w')
    have e: "environ w' = environ w"
      using keeps_envD [OF assms(1), of w] Pair by simp
    show ?thesis
    proof (cases r)
      case (Ret x)
      then show ?thesis
        using Pair e keeps_envD [OF assms(2), of x w'] by (simp add: and_then_def)
    next
      case (Raise ex)
      then show ?thesis using Pair e by (simp add: and_then_def)
    qed
  qed
qed

lemma keeps_env_seq: "keeps_env f \<Longrightarrow> keeps_env g \<Longrightarrow> keeps_env (seq f g)"
  by (simp add: seq_def keeps_env_and_then)

lemma keeps_env_if_world:
  "keeps_env f \<Longrightarrow> keeps_env g \<Longrightarrow> keeps_env (\<lambda>w. if c w then f w else g w)"
  by (simp add: keeps_env_def)

lemma keeps_env_for_each:
  assumes "\<And>x. keeps_env (body x)"
  shows "keeps_env (for_each body xs)"
proof (rule keeps_envI)
  fix w :: world
  show "environ (snd (for_each body xs w)) = environ w"
  proof (induction xs arbitrary: w)
    case Nil
    show ?case by simp
  next
    case (Cons x xs)
    show ?case
    proof (cases "body x w")
      case (Pair r w')
      have e: "environ w' = environ w"
        using keeps_envD [OF assms, of x w] Pair by simp
      show ?thesis
        using Pair e Cons.IH [of w'] by (cases r) simp_all
    qed
  qed
qed

lemma keeps_env_check_call: "keeps_env (check_call X cmd)"
  by (simp add: keeps_env_def check_call_def split: prod.splits)

lemma keeps_env_call_cmd: "keeps_env (call_cmd X cmd)"
  by (simp add: call_cmd_def keeps_env_seq keeps_env_print keeps_env_check_call)

lemma keeps_env_create_or_clear_dir: "keeps_env (create_or_clear_dir p)"
  unfolding create_or_clear_dir_def
  by (intro keeps_env_seq keeps_env_if_world keeps_env_lift_fs keeps_env_print keeps_env_skip)

lemma keeps_env_write_notebook: "keeps_env (write_notebook p nb)"
  by (simp add: write_notebook_def keeps_env_lift_fs)

lemma keeps_env_execute_notebook: "keeps_env (execute_notebook X p nb)"
proof (rule keeps_envI)
  fix w :: world
  obtain r nb' where pr: "preprocess X (environ w) (butlast p) nb = (r, nb')"
    by (cases "preprocess X (environ w) (butlast p) nb")
  have k: "keeps_env (seq (case r of
                 None \<Rightarrow> skip
               | Some CellExecutionError \<Rightarrow>
                   seq (print (''Execution of '' @ path_name p @
                               '' failed, this will cause Travis to fail.''))
                       (\<lambda>w. if ''TRAVIS'' \<in> dom (environ w)
                             then raise CellExecutionError w
                             else skip w)
               | Some e \<Rightarrow> raise e)
              (write_notebook p nb'))"
    by (intro keeps_env_seq keeps_env_write_notebook)
       (auto split: option.splits exn.splits
          intro!: keeps_env_seq keeps_env_print keeps_env_if_world keeps_env_raise keeps_env_skip)
  show "environ (snd (execute_notebook X p nb w)) = environ w"
    using keeps_envD [OF k, of w] pr by (simp add: execute_notebook_def)
qed

lemma keeps_env_process_notebook: "keeps_env (process_notebook X self p)"
  unfolding process_notebook_def
proof (intro keeps_env_seq keeps_env_print keeps_envI)
  fix w :: world
  show "environ (snd (case read_notebook p (fs w) of
                 Inl e \<Rightarrow> (Raise e, w)
               | Inr nb \<Rightarrow>
                   (let execute = execute_decision (execute_notebooks self) nb in
                    seq (print (''has_code: '' @ bool_str (has_code nb) @
                                '', has_output: '' @ bool_str (has_output nb) @
                                '', execute: '' @ bool_str execute))
                        (if execute then execute_notebook X p nb else skip) w))) = environ w"
  proof (cases "read_notebook p (fs w)")
    case (Inl e)
    then show ?thesis by simp
  next
    case (Inr nb)
    have "keeps_env (seq (print (''has_code: '' @ bool_str (has_code nb) @
                                '', has_output: '' @ bool_str (has_output nb) @
                                '', execute: '' @ bool_str (execute_decision (execute_notebooks self) nb)))
                        (if execute_decision (execute_notebooks self) nb then execute_notebook X p nb else skip))"
      by (intro keeps_env_seq keeps_env_print) (simp add: keeps_env_execute_notebook keeps_env_skip)
    from keeps_envD [OF this, of w] Inr show ?thesis by (simp add: Let_def)
  qed
qed

lemma keeps_env_stage_notebooks: "keeps_env (stage_notebooks out_dir ins acc)"
proof (rule keeps_envI)
  fix w :: world
  show "environ (snd (stage_notebooks out_dir ins acc w)) = environ w"
  proof (induction ins arbitrary: acc w)
    case Nil
    show ?case by simp
  next
    case (Cons p ps)
    let ?step = "\<lambda>w. if \<not> is_file (fs w) (out_dir @ [path_name p])
            then seq (print (''Copy: '' @ path_str p @ [NL] @ ''   -> '' @ path_str (out_dir @ [path_name p])))
                     (lift_fs (copy_file p (out_dir @ [path_name p]))) w
            else print ''Copy skipped: {}.format(nb_out_path)'' w"
    have k: "keeps_env ?step"
      by (intro keeps_env_if_world keeps_env_seq keeps_env_print keeps_env_lift_fs)
    show ?case
    proof (cases "?step w")
      case (Pair r w')
      have e: "environ w' = environ w"
        using keeps_envD [OF k, of w] Pair by simp
      show ?thesis
        using Pair e Cons.IH [of "acc @ [out_dir @ [path_name p]]" w']
        by (cases r) (simp_all add: Let_def)
    qed
  qed
qed

lemma keeps_env_stage_dir: "keeps_env (stage_dir self d acc)"
  unfolding stage_dir_def Let_def
proof (intro keeps_env_seq keeps_env_lift_fs)
  show "keeps_env (\<lambda>w. if clean_notebooks self
                then for_each (\<lambda>nb_out_path.
                         seq (print (''Delete: '' @ path_str nb_out_path))
                             (lift_fs (unlink nb_out_path)))
                       (glob_ipynb (fs w) (current_file_dir self @ [''tutorial'', d])) w
                else skip w)"
  proof (rule keeps_envI)
    fix w :: world
    have "keeps_env (for_each (\<lambda>nb_out_path.
                         seq (print (''Delete: '' @ path_str nb_out_path))
                             (lift_fs (unlink nb_out_path)))
                       (glob_ipynb (fs w) (current_file_dir self @ [''tutorial'', d])))"
      by (intro keeps_env_for_each keeps_env_seq keeps_env_print keeps_env_lift_fs)
    from keeps_envD [OF this, of w]
    show "environ (snd (if clean_notebooks self
                then for_each (\<lambda>nb_out_path.
                         seq (print (''Delete: '' @ path_str nb_out_path))
                             (lift_fs (unlink nb_out_path)))
                       (glob_ipynb (fs w) (current_file_dir self @ [''tutorial'', d])) w
                else skip w)) = environ w"
      by (simp add: skip_def)
  qed
next
  show "keeps_env (\<lambda>w. stage_notebooks (current_file_dir self @ [''tutorial'', d])
          (glob_ipynb (fs w) (butlast (current_file_dir self) @ [''examples'', ''Python'', d])) acc w)"
    by (rule keeps_envI) (rule keeps_envD [OF keeps_env_stage_notebooks])
qed

lemma keeps_env_stage_dirs: "keeps_env (stage_dirs self ds acc)"
proof (rule keeps_envI)
  fix w :: world
  show "environ (snd (stage_dirs self ds acc w)) = environ w"
  proof (induction ds arbitrary: acc w)
    case Nil
    show ?case by simp
  next
    case (Cons d ds)
    show ?case
    proof (cases "stage_dir self d acc w")
      case (Pair r w')
      have e: "environ w' = environ w"
        using keeps_envD [OF keeps_env_stage_dir, of self d acc w] Pair by simp
      show ?thesis
        using Pair e Cons.IH [of _ w'] by (cases r) simp_all
    qed
  qed
qed

lemma keeps_env_stage_and_execute: "keeps_env (stage_and_execute X self)"
  unfolding stage_and_execute_def Let_def
  by (intro keeps_env_seq keeps_env_and_then keeps_env_if_world keeps_env_lift_fs
        keeps_env_skip keeps_env_stage_dirs keeps_env_for_each keeps_env_process_notebook)

lemma keeps_env_for_each_write:
  "keeps_env (for_each (\<lambda>x. lift_fs (op x)) xs)"
  by (intro keeps_env_for_each keeps_env_lift_fs)

lemma keeps_env_generate_sub_module_class_function_docs:
  "keeps_env (generate_sub_module_class_function_docs n m out)"
  unfolding generate_sub_module_class_function_docs_def Let_def generate_class_doc_def
    generate_function_doc_def generate_sub_module_doc_def
  by (intro keeps_env_seq keeps_env_print keeps_env_for_each keeps_env_lift_fs)

lemma keeps_env_generate_module: "keeps_env (generate_module X out n)"
proof (rule keeps_envI)
  fix w :: world
  show "environ (snd (generate_module X out n w)) = environ w"
    using keeps_envD [OF keeps_env_generate_sub_module_class_function_docs]
    by (simp add: generate_module_def split: sum.splits)
qed

lemma keeps_env_generate_rst: "keeps_env (generate_rst X self)"
  unfolding generate_rst_def
  by (intro keeps_env_seq keeps_env_create_or_clear_dir keeps_env_for_each keeps_env_generate_module)

lemma keeps_env_gen_python_api_docs: "keeps_env (gen_python_api_docs X self)"
  unfolding gen_python_api_docs_def PyAPIDocsBuilder_init_def
  by (intro keeps_env_and_then keeps_env_seq keeps_env_print keeps_env_ret keeps_env_generate_rst)

lemma keeps_env_run_sphinx: "keeps_env (run_sphinx X self)"
proof (rule keeps_envI)
  fix w :: world
  have k: "\<And>v. keeps_env (seq (print (''Building docs for release: '' @ v))
                      (call_cmd X (release_cmd v (path_str (html_output_dir self @ [''html''])))))"
    by (intro keeps_env_seq keeps_env_print keeps_env_call_cmd)
  show "environ (snd (run_sphinx X self w)) = environ w"
    using keeps_envD [OF k] keeps_envD [OF keeps_env_call_cmd]
    by (simp add: run_sphinx_def Let_def split: sum.splits)
qed

lemma keeps_env_SphinxDocsBuilder_run: "keeps_env (SphinxDocsBuilder_run X self)"
  unfolding SphinxDocsBuilder_run_def
  by (intro keeps_env_seq keeps_env_gen_python_api_docs keeps_env_run_sphinx)

lemma keeps_env_SphinxDocsBuilder_init: "keeps_env (SphinxDocsBuilder_init out r)"
proof -
  have "keeps_env get_module_names_from_index_rst"
    by (rule keeps_envI) (simp add: get_module_names_from_index_rst_def split: sum.splits)
  then show ?thesis
    unfolding SphinxDocsBuilder_init_def
    by (intro keeps_env_and_then keeps_env_ret)
qed

lemma keeps_env_sphinx_build: 
  "keeps_env (seq (print ''Building Sphinx docs'')
         (and_then (SphinxDocsBuilder_init html_out r)
            (\<lambda>sdb. SphinxDocsBuilder_run X sdb)))"
  by (intro keeps_env_seq keeps_env_and_then keeps_env_print keeps_env_SphinxDocsBuilder_init
        keeps_env_SphinxDocsBuilder_run)

lemma JupyterDocsBuilder_run_environ:
  "environ (snd (JupyterDocsBuilder_run X self w)) = (environ w)(''CI'' \<mapsto> ''true'')"
  using keeps_envD [OF keeps_env_stage_and_execute, of X self "w\<lparr>environ := (environ w)(''CI'' \<mapsto> ''true'')\<rparr>"]
  by (simp add: JupyterDocsBuilder_run_def seq_def and_then_def setenv_def)

lemma sphinx_part_environ:
  assumes "arg_execute_notebooks a \<in> {''auto'', ''always''}"
  shows "environ (snd (sphinx_part X a pwd html_out w)) = (environ w)(''CI'' \<mapsto> ''true'')"
proof -
  let ?w2 = "w\<lparr>stdout := stdout w @ [''Sphinx build enabled''] @ [''Building Jupyter docs''] @
                 [''Notebook execution mode: '' @ arg_execute_notebooks a]\<rparr>"
  let ?jdb = "\<lparr>clean_notebooks = arg_clean_notebooks a, execute_notebooks = arg_execute_notebooks a,
                           current_file_dir = pwd\<rparr>"
  let ?rest = "seq (print ''Building Sphinx docs'')
         (and_then (SphinxDocsBuilder_init html_out (arg_is_release a))
            (\<lambda>sdb. SphinxDocsBuilder_run X sdb))"
  have unfold: "sphinx_part X a pwd html_out w = seq (JupyterDocsBuilder_run X ?jdb) ?rest ?w2"
    using assms
    by (auto simp add: sphinx_part_def seq_def and_then_def print_def JupyterDocsBuilder_init_def)
  obtain r w3 where run: "JupyterDocsBuilder_run X ?jdb ?w2 = (r, w3)"
    by (cases "JupyterDocsBuilder_run X ?jdb ?w2")
  have e3: "environ w3 = (environ w)(''CI'' \<mapsto> ''true'')"
    using JupyterDocsBuilder_run_environ [of X ?jdb ?w2] run by simp
  show ?thesis
  proof (cases r)
    case (Ret u)
    then show ?thesis
      using unfold run e3 keeps_envD [OF keeps_env_sphinx_build, of html_out "arg_is_release a" X w3]
      by (simp add: seq_def and_then_def)
  next
    case (Raise ex)
    then show ?thesis
      using unfold run e3 by (simp add: seq_def and_then_def)
  qed
qed


text \<open>
  C9. \<^verbatim>\<open>JupyterDocsBuilder.run\<close> first sets \<^verbatim>\<open>CI\<close> to \<^verbatim>\<open>true\<close>: all of its staging and
  execution happens in the world with that assignment. Whatever the outcome of the run
  (also when it ends in an exception) the environment afterwards is the one before the
  call with \<^verbatim>\<open>CI\<close> set to \<^verbatim>\<open>true\<close>, and it is still so after the static-site build that
  the script starts next.
\<close>

theorem run_sets_CI:
  "JupyterDocsBuilder_run X self w =
     stage_and_execute X self (w\<lparr>environ := (environ w)(''CI'' \<mapsto> ''true'')\<rparr>) \<and>
   environ (snd (JupyterDocsBuilder_run X self w)) = (environ w)(''CI'' \<mapsto> ''true'') \<and>
   (arg_execute_notebooks a \<in> {''auto'', ''always''} \<longrightarrow>
      environ (snd (sphinx_part X a pwd html_out w)) = (environ w)(''CI'' \<mapsto> ''true''))"
proof -
  have a: "JupyterDocsBuilder_run X self w =
     stage_and_execute X self (w\<lparr>environ := (environ w)(''CI'' \<mapsto> ''true'')\<rparr>)"
    by (simp add: JupyterDocsBuilder_run_def seq_def and_then_def setenv_def)
  show ?thesis
    using a JupyterDocsBuilder_run_environ [of X self w] sphinx_part_environ [of a X pwd html_out w]
    by simp
qed


theorem run_sets_CI_witness:
  "environ (snd (JupyterDocsBuilder_run example_externals example_stager empty_world)) ''CI'' =
     Some ''true'' \<and>
   environ (snd (sphinx_part example_externals example_args [''docs''] [''docs'', ''_out'']
     empty_world)) ''CI'' = Some ''true''"
proof -
  note h = run_sets_CI [of example_externals example_stager empty_world example_args
      "[''docs'']" "[''docs'', ''_out'']"]
  have m: "arg_execute_notebooks example_args \<in> {''auto'', ''always''}"
    by (simp add: example_args_def)
  from h have 1: "environ (snd (JupyterDocsBuilder_run example_externals example_stager
      empty_world)) = (environ empty_world)(''CI'' \<mapsto> ''true'')"
    by blast
  from h m have 2: "environ (snd (sphinx_part example_externals example_args [''docs'']
      [''docs'', ''_out''] empty_world)) = (environ empty_world)(''CI'' \<mapsto> ''true'')"
    by blast
  show ?thesis
    unfolding 1 2 by simp
qed

section \<open>The fallback of the module lookup (C10)\<close>

lemma split_on_join:
  assumes "segs \<noteq> []" and "\<forall>s \<in> set segs. c \<notin> set s"
  shows "split_on c (join [c] segs) = segs"
  using assms
proof (induction segs)
  case Nil
  then show ?case by simp
next
  case (Cons x xs)
  show ?case
  proof (cases xs)
    case Nil
    then show ?thesis using Cons.prems by (simp add: split_on_no_sep)
  next
    case (Cons y ys)
    then have "split_on c (join [c] xs) = xs"
      using Cons.IH Cons.prems by simp
    moreover have "c \<notin> set x"
      using Cons.prems by simp
    ultimately show ?thesis
      using split_on_first [of c x "join [c] xs"] Cons by simp
  qed
qed

lemma foldl_lookup_error:
  "foldl (\<lambda>r name. case r of
            Inl e \<Rightarrow> Inl e
          | Inr m \<Rightarrow> (case map_of (attrs m) name of
                        None \<Rightarrow> Inl (AttributeError name)
                      | Some v \<Rightarrow> Inr v)) (Inl e) ns = Inl e"
  by (induction ns) simp_all

lemma traverse_foldl:
  "traverse m ns =
     foldl (\<lambda>r name. case r of
              Inl e \<Rightarrow> Inl e
            | Inr m \<Rightarrow> (case map_of (attrs m) name of
                          None \<Rightarrow> Inl (AttributeError name)
                        | Some v \<Rightarrow> Inr v)) (Inr m) ns"
proof (induction ns arbitrary: m)
  case Nil
  show ?case by simp
next
  case (Cons n ns)
  show ?case
    by (simp add: getattr_def Cons.IH foldl_lookup_error split: option.splits)
qed

text \<open>
  C10. When the direct import of a dotted name fails, the part before the first dot is
  dropped without a look at it, and the remaining segments are looked up one after the
  other as attributes, starting at the root module: each segment is looked up in the
  object that the segment before it gave, and the first segment that is not an attribute
  ends the lookup with its \<^verbatim>\<open>AttributeError\<close>. Any name \<^verbatim>\<open>X.camera\<close> that cannot be
  imported resolves to the attribute \<^verbatim>\<open>camera\<close> of the root module.
\<close>

theorem fallback_traverses_remaining_segments:
  assumes "CHR ''.'' \<notin> set x"
    and "segs \<noteq> []" and "\<forall>s \<in> set segs. CHR ''.'' \<notin> set s"
    and "import_module X (x @ ''.'' @ join ''.'' segs) = None"
  shows "get_open3d_module X (x @ ''.'' @ join ''.'' segs) =
           foldl (\<lambda>r name. case r of
                    Inl e \<Rightarrow> Inl e
                  | Inr m \<Rightarrow> (case map_of (attrs m) name of
                                None \<Rightarrow> Inl (AttributeError name)
                              | Some v \<Rightarrow> Inr v)) (Inr (open3d X)) segs \<and>
         (segs = [''camera''] \<longrightarrow>
            get_open3d_module X (x @ ''.camera'') =
              (case map_of (attrs (open3d X)) ''camera'' of
                 None \<Rightarrow> Inl (AttributeError ''camera'')
               | Some v \<Rightarrow> Inr v))"
proof -
  have s: "split_on CHR ''.'' (join ''.'' segs) = segs"
    by (rule split_on_join [OF assms(2,3)])
  have g: "get_open3d_module X (x @ ''.'' @ join ''.'' segs) = traverse (open3d X) segs"
    using fallback_traverse [OF assms(1,4)] by (simp only: s)
  have 1: "get_open3d_module X (x @ ''.'' @ join ''.'' segs) =
           foldl (\<lambda>r name. case r of
                    Inl e \<Rightarrow> Inl e
                  | Inr m \<Rightarrow> (case map_of (attrs m) name of
                                None \<Rightarrow> Inl (AttributeError name)
                              | Some v \<Rightarrow> Inr v)) (Inr (open3d X)) segs"
    unfolding g by (rule traverse_foldl)
  have 2: "segs = [''camera''] \<longrightarrow>
            get_open3d_module X (x @ ''.camera'') =
              (case map_of (attrs (open3d X)) ''camera'' of
                 None \<Rightarrow> Inl (AttributeError ''camera'')
               | Some v \<Rightarrow> Inr v)"
  proof
    assume c: "segs = [''camera'']"
    have "get_open3d_module X (x @ ''.'' @ join ''.'' [''camera'']) =
            traverse (open3d X) [''camera'']"
      using g unfolding c .
    then show "get_open3d_module X (x @ ''.camera'') =
              (case map_of (attrs (open3d X)) ''camera'' of
                 None \<Rightarrow> Inl (AttributeError ''camera'')
               | Some v \<Rightarrow> Inr v)"
      by (simp add: getattr_def split: option.splits)
  qed
  show ?thesis
    using 1 2 by (rule conjI)
qed

theorem fallback_traverses_remaining_segments_witness:
  "import_module nested_externals ''bogus.ml.tf'' = None \<and>
   get_open3d_module nested_externals ''bogus.ml.tf'' =
     Inr (PyObj Module [(''Model'', PyObj Class [])]) \<and>
   import_module nested_externals ''bogus.ml.nothing'' = None \<and>
   get_open3d_module nested_externals ''bogus.ml.nothing'' = Inl (AttributeError ''nothing'') \<and>
   get_open3d_module nested_externals ''bogus.camera'' = Inr camera_module"
proof -
  have d: "CHR ''.'' \<notin> set ''bogus''"
    by simp
  have i: "\<And>name. import_module nested_externals name = None"
    by (simp add: nested_externals_def example_externals_def)
  have r: "open3d nested_externals = nested_root"
    by (simp add: nested_externals_def)
  have a: "get_open3d_module nested_externals (''bogus'' @ ''.'' @ join ''.'' [''ml'', ''tf'']) =
      Inr (PyObj Module [(''Model'', PyObj Class [])])"
    using fallback_traverses_remaining_segments [OF d, of "[''ml'', ''tf'']" nested_externals]
    by (simp add: i r nested_root_def)
  have b: "get_open3d_module nested_externals (''bogus'' @ ''.'' @ join ''.'' [''ml'', ''nothing'']) =
      Inl (AttributeError ''nothing'')"
    using fallback_traverses_remaining_segments [OF d, of "[''ml'', ''nothing'']" nested_externals]
    by (simp add: i r nested_root_def)
  have c: "get_open3d_module nested_externals (''bogus'' @ ''.'' @ join ''.'' [''camera'']) =
      Inr camera_module"
    using fallback_traverses_remaining_segments [OF d, of "[''camera'']" nested_externals]
    by (simp add: i r nested_root_def)
  show ?thesis
    using a b c by (simp add: i)
qed


section \<open>The member lists of the module file (C4)\<close>

lemma sort_eq_of_mset: "mset xs = mset ys \<Longrightarrow> sort xs = sort (ys :: string list)"
  by (rule properties_for_sort) simp_all

lemma mset_class_names_of:
  "mset (getmembers m') = mset (getmembers m) \<Longrightarrow> mset (class_names_of m') = mset (class_names_of m)"
  by (simp add: class_names_of_def)

lemma mset_function_names_of:
  "mset (getmembers m') = mset (getmembers m) \<Longrightarrow> mset (function_names_of m') = mset (function_names_of m)"
  by (simp add: function_names_of_def)

lemma summary_lines_concat:
  "summary_lines out names = out @ concat (map (\<lambda>name. [NL] @ ''    '' @ name) names)"
  unfolding summary_lines_def
  by (induction names arbitrary: out) simp_all

lemma toctree_lines_concat:
  "toctree_lines n out names =
     out @ concat (map (\<lambda>obj. [NL] @ ''    '' @ obj @ '' <'' @ n @ ''.'' @ obj @ ''>'') names)"
  unfolding toctree_lines_def
  by (induction names arbitrary: out) simp_all

lemma sub_module_doc_body_text:
  "sub_module_doc_body n cns fns =
     n @ [NL] @ replicate (length n) CHR ''-'' @ [NL, NL] @ ''.. currentmodule:: '' @ n @
     (if cns = [] then []
      else [NL, NL] @ ''**Classes**'' @ [NL, NL] @ ''.. autosummary::'' @ [NL] @
           concat (map (\<lambda>c. [NL] @ ''    '' @ c) cns) @ [NL]) @
     (if fns = [] then []
      else [NL, NL] @ ''**Functions**'' @ [NL, NL] @ ''.. autosummary::'' @ [NL] @
           concat (map (\<lambda>f. [NL] @ ''    '' @ f) fns) @ [NL]) @
     (if cns = [] \<and> fns = [] then []
      else [NL, NL] @ ''.. toctree::'' @ [NL] @ ''    :hidden:'' @ [NL] @
           concat (map (\<lambda>obj. [NL] @ ''    '' @ obj @ '' <'' @ n @ ''.'' @ obj @ ''>'')
                     (cns @ fns)) @ [NL])"
  by (simp add: sub_module_doc_body_def Let_def summary_lines_concat toctree_lines_concat)

lemma sort_eq_Nil: "sort xs = [] \<longleftrightarrow> xs = ([] :: string list)"
  by (metis length_sort length_0_conv)

lemma sorted_append_sorts:
  "sorted (sort cns @ sort fns) \<longleftrightarrow> (\<forall>c \<in> set cns. \<forall>f \<in> set fns. c \<le> (f :: string))"
  by (simp add: sorted_append)


text \<open>
  C4, as the code has it. The text of the module file is the title, its underline and the
  namespace directive, followed by the class group, which lists the sorted class names,
  the function group, which lists the sorted function names, and the navigation tree,
  which lists the sorted class names and after them the sorted function names. The two
  groups are sorted; the navigation tree is sorted within each of its two parts, and as a
  whole exactly when no class name is greater than a function name. The text does not
  depend on the order in which the names, or the attributes of the module, are
  enumerated.
\<close>

theorem sub_module_doc_lists:
  "sub_module_doc_text n cns fns =
     n @ [NL] @ replicate (length n) CHR ''-'' @ [NL, NL] @ ''.. currentmodule:: '' @ n @
     (if cns = [] then []
      else [NL, NL] @ ''**Classes**'' @ [NL, NL] @ ''.. autosummary::'' @ [NL] @
           concat (map (\<lambda>c. [NL] @ ''    '' @ c) (sort cns)) @ [NL]) @
     (if fns = [] then []
      else [NL, NL] @ ''**Functions**'' @ [NL, NL] @ ''.. autosummary::'' @ [NL] @
           concat (map (\<lambda>f. [NL] @ ''    '' @ f) (sort fns)) @ [NL]) @
     (if cns = [] \<and> fns = [] then []
      else [NL, NL] @ ''.. toctree::'' @ [NL] @ ''    :hidden:'' @ [NL] @
           concat (map (\<lambda>obj. [NL] @ ''    '' @ obj @ '' <'' @ n @ ''.'' @ obj @ ''>'')
                     (sort cns @ sort fns)) @ [NL]) \<and>
   sorted (sort cns) \<and> sorted (sort fns) \<and>
   (sorted (sort cns @ sort fns) \<longleftrightarrow> (\<forall>c \<in> set cns. \<forall>f \<in> set fns. c \<le> f)) \<and>
   (mset cns' = mset cns \<and> mset fns' = mset fns \<longrightarrow>
      sub_module_doc_text n cns' fns' = sub_module_doc_text n cns fns) \<and>
   (mset (getmembers m') = mset (getmembers m) \<longrightarrow>
      sub_module_doc_text n (class_names_of m') (function_names_of m') =
      sub_module_doc_text n (class_names_of m) (function_names_of m))"
proof (intro conjI impI)
  show "sub_module_doc_text n cns fns =
     n @ [NL] @ replicate (length n) CHR ''-'' @ [NL, NL] @ ''.. currentmodule:: '' @ n @
     (if cns = [] then []
      else [NL, NL] @ ''**Classes**'' @ [NL, NL] @ ''.. autosummary::'' @ [NL] @
           concat (map (\<lambda>c. [NL] @ ''    '' @ c) (sort cns)) @ [NL]) @
     (if fns = [] then []
      else [NL, NL] @ ''**Functions**'' @ [NL, NL] @ ''.. autosummary::'' @ [NL] @
           concat (map (\<lambda>f. [NL] @ ''    '' @ f) (sort fns)) @ [NL]) @
     (if cns = [] \<and> fns = [] then []
      else [NL, NL] @ ''.. toctree::'' @ [NL] @ ''    :hidden:'' @ [NL] @
           concat (map (\<lambda>obj. [NL] @ ''    '' @ obj @ '' <'' @ n @ ''.'' @ obj @ ''>'')
                     (sort cns @ sort fns)) @ [NL])"
    unfolding sub_module_doc_text_def sub_module_doc_body_text sort_eq_Nil ..
  show "sorted (sort cns)" and "sorted (sort fns)"
    by simp_all
  show "sorted (sort cns @ sort fns) \<longleftrightarrow> (\<forall>c \<in> set cns. \<forall>f \<in> set fns. c \<le> f)"
    by (rule sorted_append_sorts)
next
  assume "mset cns' = mset cns \<and> mset fns' = mset fns"
  then have "sort cns' = sort cns" and "sort fns' = sort fns"
    by (auto intro: sort_eq_of_mset)
  then show "sub_module_doc_text n cns' fns' = sub_module_doc_text n cns fns"
    by (simp add: sub_module_doc_text_def)
next
  assume a: "mset (getmembers m') = mset (getmembers m)"
  have "sort (class_names_of m') = sort (class_names_of m)"
    by (rule sort_eq_of_mset) (rule mset_class_names_of [OF a])
  moreover have "sort (function_names_of m') = sort (function_names_of m)"
    by (rule sort_eq_of_mset) (rule mset_function_names_of [OF a])
  ultimately show "sub_module_doc_text n (class_names_of m') (function_names_of m') =
      sub_module_doc_text n (class_names_of m) (function_names_of m)"
    by (simp add: sub_module_doc_text_def)
qed

lemma sort_ex1: "sort [''Zeta'', ''Alpha''] = [''Alpha'', ''Zeta'']"
  by code_simp

lemma sort_ex2: "sort [''read'', ''draw''] = [''draw'', ''read'']"
  by code_simp

theorem sub_module_doc_lists_witness:
  "sub_module_doc_text ''open3d.x'' [''Zeta'', ''Alpha''] [''read'', ''draw''] =
     ''open3d.x'' @ [NL] @ ''--------'' @ [NL, NL] @ ''.. currentmodule:: open3d.x'' @
     [NL, NL] @ ''**Classes**'' @ [NL, NL] @ ''.. autosummary::'' @ [NL, NL] @
     ''    Alpha'' @ [NL] @ ''    Zeta'' @ [NL] @
     [NL, NL] @ ''**Functions**'' @ [NL, NL] @ ''.. autosummary::'' @ [NL, NL] @
     ''    draw'' @ [NL] @ ''    read'' @ [NL] @
     [NL, NL] @ ''.. toctree::'' @ [NL] @ ''    :hidden:'' @ [NL, NL] @
     ''    Alpha <open3d.x.Alpha>'' @ [NL] @ ''    Zeta <open3d.x.Zeta>'' @ [NL] @
     ''    draw <open3d.x.draw>'' @ [NL] @ ''    read <open3d.x.read>'' @ [NL] \<and>
   sub_module_doc_text ''open3d.x'' [''Alpha'', ''Zeta''] [''draw'', ''read''] =
     sub_module_doc_text ''open3d.x'' [''Zeta'', ''Alpha''] [''read'', ''draw'']"
proof -
  note h = sub_module_doc_lists [of "''open3d.x''" "[''Zeta'', ''Alpha'']" "[''read'', ''draw'']"
      "[''Alpha'', ''Zeta'']" "[''draw'', ''read'']"]
  have m: "mset [''Alpha'', ''Zeta''] = mset [''Zeta'', ''Alpha''] \<and>
           mset [''draw'', ''read''] = mset [''read'', ''draw'']"
    by (simp add: add_mset_commute)
  note 1 = h [THEN conjunct1, unfolded sort_ex1 sort_ex2]
  have 2: "sub_module_doc_text ''open3d.x'' [''Alpha'', ''Zeta''] [''draw'', ''read''] =
     sub_module_doc_text ''open3d.x'' [''Zeta'', ''Alpha''] [''read'', ''draw'']"
    by (rule h [THEN conjunct2, THEN conjunct2, THEN conjunct2, THEN conjunct2, THEN conjunct1,
          THEN mp, OF m])
  show ?thesis
    using 1 2 by simp
qed

text \<open>
  The claim as the specification words it fails for the navigation tree: for the class
  \<^verbatim>\<open>b\<close> and the built-in callable \<^verbatim>\<open>a\<close> the tree lists \<^verbatim>\<open>b\<close> before \<^verbatim>\<open>a\<close>.
\<close>

lemma not_sorted_b_a: "\<not> sorted [''b'', ''a'']"
  by code_simp

lemma sort_single: "sort [x] = [x :: string]"
  by simp

theorem nav_tree_not_sorted:
  "sub_module_doc_text ''m'' [''b''] [''a''] =
     ''m'' @ [NL] @ ''-'' @ [NL, NL] @ ''.. currentmodule:: m'' @
     [NL, NL] @ ''**Classes**'' @ [NL, NL] @ ''.. autosummary::'' @ [NL, NL] @ ''    b'' @ [NL] @
     [NL, NL] @ ''**Functions**'' @ [NL, NL] @ ''.. autosummary::'' @ [NL, NL] @ ''    a'' @ [NL] @
     [NL, NL] @ ''.. toctree::'' @ [NL] @ ''    :hidden:'' @ [NL, NL] @
     ''    b <m.b>'' @ [NL] @ ''    a <m.a>'' @ [NL] \<and>
   \<not> sorted [''b'', ''a'']"
  using not_sorted_b_a
  by (simp add: sub_module_doc_text_def sub_module_doc_body_def summary_lines_def
      toctree_lines_def Let_def)


section \<open>A module name that does not resolve (C8)\<close>

lemmas stmt_defs = seq_def and_then_def skip_def raise_def print_def lift_fs_def
lemmas fs_defs = is_dir_def is_file_def path_exists_def rmtree_def makedirs_def write_file_def
  read_file_def

lemma split_camera: "split_on CHR ''.'' ''open3d.camera'' = [''open3d'', ''camera'']"
  by (simp add: split_on_def)

lemma get_camera: "get_open3d_module example_externals ''open3d.camera'' = Inr camera_module"
  by (simp add: get_open3d_module_def example_externals_def split_camera getattr_def root_module_def)

lemma create_empty:
  "create_or_clear_dir [''python_api''] empty_world =
     (Ret (), \<lparr>environ = Map.empty, fs = \<lparr>dirs = [[], [''python_api'']], files = []\<rparr>,
       stdout = [''Created directory python_api'']\<rparr>)"
  by (simp add: create_or_clear_dir_def stmt_defs fs_defs empty_world_def path_str_def)

lemma camera_names:
  "class_names_of camera_module = [''PinholeCameraIntrinsic'']"
  "function_names_of camera_module = [''read_pinhole_camera_intrinsic'']"
  by (simp_all add: class_names_of_def function_names_of_def camera_module_def getmembers_def
      isclass_def isbuiltin_def)

lemma gen_camera_ok:
  "fst (generate_rst example_externals camera_builder empty_world) = Ret ()"
  by (simp add: generate_rst_def camera_builder_def seq_def and_then_def create_empty
      generate_module_def get_camera generate_sub_module_class_function_docs_def camera_names
      generate_class_doc_def generate_function_doc_def generate_sub_module_doc_def
      print_def lift_fs_def write_file_def is_dir_def member_file_def module_file_def Let_def)


lemma gen_camera_result:
  "generate_rst example_externals \<lparr>output_dir = [''python_api''], module_names = [''open3d.camera'']\<rparr>
     empty_world = (Ret (), snd (generate_rst example_externals camera_builder empty_world))"
  using gen_camera_ok by (simp add: camera_builder_def prod_eq_iff)

lemma for_each_append:
  "for_each body (xs @ ys) w =
     (case for_each body xs w of
        (Ret u, w') \<Rightarrow> for_each body ys w'
      | (Raise e, w') \<Rightarrow> (Raise e, w'))"
proof (induction xs arbitrary: w)
  case Nil
  show ?case by simp
next
  case (Cons x xs)
  show ?case
    by (simp add: Cons.IH split: prod.splits res.splits)
qed

lemma getattr_error: "getattr m n = Inl e \<Longrightarrow> e = AttributeError n"
  by (simp add: getattr_def split: option.splits)

lemma traverse_error: "traverse m ns = Inl e \<Longrightarrow> \<exists>n \<in> set ns. e = AttributeError n"
proof (induction ns arbitrary: m)
  case Nil
  then show ?case by simp
next
  case (Cons n ns)
  show ?case
  proof (cases "getattr m n")
    case (Inl e')
    then show ?thesis using Cons.prems getattr_error [OF Inl] by simp
  next
    case (Inr m')
    then show ?thesis using Cons.prems Cons.IH [of m'] by simp
  qed
qed

text \<open>
  C8. When a name of the list can neither be imported nor reached by attribute lookup
  from the root module, \<^verbatim>\<open>generate_rst\<close> ends with the \<^verbatim>\<open>AttributeError\<close> of the lookup,
  in the world that the modules before that name have left: none of them is skipped and
  none of the modules after it is processed.
\<close>

theorem unresolvable_module_aborts:
  assumes "import_module X bad = None"
    and "traverse (open3d X) (tl (split_on CHR ''.'' bad)) = Inl e"
    and "generate_rst X \<lparr>output_dir = out, module_names = pre\<rparr> w = (Ret (), w1)"
  shows "(\<exists>n. e = AttributeError n) \<and>
         generate_rst X \<lparr>output_dir = out, module_names = pre @ bad # post\<rparr> w = (Raise e, w1)"
proof
  show "\<exists>n. e = AttributeError n"
    using traverse_error [OF assms(2)] by blast
next
  have g: "generate_module X out bad w1 = (Raise e, w1)"
    using assms(1,2) by (simp add: generate_module_def get_open3d_module_def)
  obtain r w0 where c: "create_or_clear_dir out w = (r, w0)"
    by (cases "create_or_clear_dir out w")
  show "generate_rst X \<lparr>output_dir = out, module_names = pre @ bad # post\<rparr> w = (Raise e, w1)"
  proof (cases r)
    case (Raise ex)
    then show ?thesis
      using assms(3) c by (simp add: generate_rst_def seq_def and_then_def)
  next
    case (Ret u)
    then have "for_each (generate_module X out) pre w0 = (Ret (), w1)"
      using assms(3) c by (simp add: generate_rst_def seq_def and_then_def)
    then show ?thesis
      using c Ret g by (simp add: generate_rst_def seq_def and_then_def for_each_append)
  qed
qed

theorem unresolvable_module_aborts_witness:
  "generate_rst example_externals
     \<lparr>output_dir = [''python_api''],
      module_names = [''open3d.camera'', ''open3d.nothing'', ''open3d.camera'']\<rparr> empty_world =
   (Raise (AttributeError ''nothing''),
    snd (generate_rst example_externals camera_builder empty_world))"
proof -
  have i: "import_module example_externals ''open3d.nothing'' = None"
    by (simp add: example_externals_def)
  have t: "traverse (open3d example_externals) (tl (split_on CHR ''.'' ''open3d.nothing'')) =
      Inl (AttributeError ''nothing'')"
    by (simp add: example_externals_def split_on_def getattr_def root_module_def)
  show ?thesis
    using unresolvable_module_aborts [OF i t gen_camera_result, of "[''open3d.camera'']"]
    by simp
qed

section \<open>A notebook whose execution fails (C2)\<close>

text \<open>
  C2, as the code has it. When the execution of a staged notebook raises a
  \<^verbatim>\<open>CellExecutionError\<close> and the variable \<^verbatim>\<open>TRAVIS\<close> is not in the environment, the error is
  swallowed and the notebook file is rewritten with the notebook as the failed execution
  has left it; when \<^verbatim>\<open>TRAVIS\<close> is in the environment the error is raised again and the
  file system is as before.
\<close>

theorem failed_execution_outcome:
  assumes "read_notebook p (fs w) = Inr nb"
    and "execute_decision (execute_notebooks self) nb"
    and "preprocess X (environ w) (butlast p) nb = (Some CellExecutionError, nb')"
    and "is_dir (fs w) (butlast p)"
  shows "(''TRAVIS'' \<notin> dom (environ w) \<longrightarrow>
            (\<exists>w'. process_notebook X self p w = (Ret (), w') \<and> environ w' = environ w \<and>
                  fs w' = (fs w)\<lparr>files := AList.update p (Notebook nb') (files (fs w))\<rparr>)) \<and>
         (''TRAVIS'' \<in> dom (environ w) \<longrightarrow>
            (\<exists>w'. process_notebook X self p w = (Raise CellExecutionError, w') \<and>
                  environ w' = environ w \<and> fs w' = fs w))"
proof -
  have nd: "\<not> is_dir (fs w) p"
    using assms(1) by (auto simp: read_notebook_def read_file_def split: if_splits)
  show ?thesis
    using assms nd
    by (auto simp: process_notebook_def execute_notebook_def write_notebook_def seq_def and_then_def
        print_def lift_fs_def write_file_def skip_def raise_def Let_def)
qed

lemma fresh_decision: "execute_decision (execute_notebooks example_stager) fresh_notebook"
  by (simp add: execute_decision_def example_stager_def has_code_def has_output_def code_cells_def
      fresh_notebook_def truthy_outputs_def truthy_count_def)

lemma read_fresh:
  "read_notebook notebook_path (fs notebook_world) = Inr fresh_notebook"
  "read_notebook notebook_path (fs travis_world) = Inr fresh_notebook"
  by (simp_all add: read_notebook_def read_file_def notebook_world_def travis_world_def
      is_dir_def notebook_path_def)

lemma parent_dir:
  "is_dir (fs notebook_world) (butlast notebook_path)"
  "is_dir (fs travis_world) (butlast notebook_path)"
  by (simp_all add: notebook_world_def travis_world_def is_dir_def notebook_path_def)

lemma failing_preprocess:
  "preprocess failing_externals env p fresh_notebook = (Some CellExecutionError, failed_notebook)"
  by (simp add: failing_externals_def failed_notebook_def)

theorem failed_execution_outcome_witness:
  "fst (process_notebook failing_externals example_stager notebook_path notebook_world) = Ret () \<and>
   fs (snd (process_notebook failing_externals example_stager notebook_path notebook_world)) =
     (fs notebook_world)\<lparr>files := [(notebook_path, Notebook failed_notebook)]\<rparr> \<and>
   fst (process_notebook failing_externals example_stager notebook_path travis_world) =
     Raise CellExecutionError \<and>
   fs (snd (process_notebook failing_externals example_stager notebook_path travis_world)) =
     fs travis_world"
proof -
  note a = failed_execution_outcome [OF read_fresh(1) fresh_decision failing_preprocess parent_dir(1)]
  note b = failed_execution_outcome [OF read_fresh(2) fresh_decision failing_preprocess parent_dir(2)]
  have na: "''TRAVIS'' \<notin> dom (environ notebook_world)"
    by (simp add: notebook_world_def)
  have nb: "''TRAVIS'' \<in> dom (environ travis_world)"
    by (simp add: travis_world_def)
  have u: "AList.update notebook_path (Notebook failed_notebook) (files (fs notebook_world)) =
      [(notebook_path, Notebook failed_notebook)]"
    by (simp add: notebook_world_def)
  from a na obtain w' where
    "process_notebook failing_externals example_stager notebook_path notebook_world = (Ret (), w')"
    "fs w' = (fs notebook_world)\<lparr>files := AList.update notebook_path (Notebook failed_notebook)
        (files (fs notebook_world))\<rparr>"
    by blast
  moreover from b nb obtain w'' where
    "process_notebook failing_externals example_stager notebook_path travis_world =
       (Raise CellExecutionError, w'')" "fs w'' = fs travis_world"
    by blast
  ultimately show ?thesis
    by (simp add: u)
qed

text \<open>
  The claim as the specification words it fails: with \<^verbatim>\<open>CI\<close> set and \<^verbatim>\<open>TRAVIS\<close> not set,
  the error of the failed execution is swallowed, and the notebook file on disk is not
  the one that was staged.
\<close>

theorem failed_notebook_rewritten:
  "environ notebook_world ''CI'' = Some ''true'' \<and>
   ''TRAVIS'' \<notin> dom (environ notebook_world) \<and>
   fst (process_notebook failing_externals example_stager notebook_path notebook_world) = Ret () \<and>
   map_of (files (fs (snd (process_notebook failing_externals example_stager notebook_path
      notebook_world)))) notebook_path = Some (Notebook failed_notebook) \<and>
   map_of (files (fs notebook_world)) notebook_path = Some (Notebook fresh_notebook) \<and>
   failed_notebook \<noteq> fresh_notebook"
  by (simp add: process_notebook_def execute_notebook_def write_notebook_def seq_def and_then_def
      print_def lift_fs_def write_file_def skip_def raise_def Let_def read_fresh fresh_decision
      failing_preprocess is_dir_def)
     (simp add: notebook_world_def notebook_path_def failed_notebook_def fresh_notebook_def)


section \<open>The file system after a run of the reference emitter\<close>

lemma map_of_fold_update:
  "map_of (fold (\<lambda>(p, c). AList.update p c) ws al) = map_of al ++ map_of (rev ws)"
proof (induction ws arbitrary: al)
  case Nil
  show ?case by simp
next
  case (Cons x ws)
  obtain p c where x: "x = (p, c)" by (cases x)
  show ?case
    by (simp add: x Cons.IH update_conv' map_add_def fun_eq_iff split: option.splits)
qed

lemma apply_writes_Nil: "apply_writes [] f = f"
  by (simp add: apply_writes_def)

lemma apply_writes_append: "apply_writes (xs @ ys) f = apply_writes ys (apply_writes xs f)"
  by (simp add: apply_writes_def)

lemma apply_writes_Cons:
  "apply_writes ((p, c) # ws) f = apply_writes ws (f\<lparr>files := AList.update p c (files f)\<rparr>)"
  by (simp add: apply_writes_def)

lemma dirs_apply_writes: "dirs (apply_writes ws f) = dirs f"
  by (simp add: apply_writes_def)

lemma map_of_apply_writes:
  "map_of (files (apply_writes ws f)) = map_of (files f) ++ map_of (rev ws)"
  by (simp add: apply_writes_def map_of_fold_update)

lemma writable_apply_writes: "writable (apply_writes ws f) out = writable f out"
  by (simp add: writable_def is_dir_def dirs_apply_writes)

lemma write_ok:
  assumes "writable (fs w) out"
  shows "lift_fs (write_file (out @ [n]) c) w = (Ret (), w\<lparr>fs := apply_writes [(out @ [n], c)] (fs w)\<rparr>)"
proof -
  have "strict_prefix out (out @ [n])"
    by (simp add: strict_prefix_def)
  then have "\<not> is_dir (fs w) (out @ [n])"
    using assms by (auto simp: writable_def is_dir_def)
  moreover have "is_dir (fs w) out"
    using assms by (simp add: writable_def)
  ultimately show ?thesis
    by (simp add: lift_fs_def write_file_def apply_writes_def)
qed

lemma for_each_writes:
  assumes "writable (fs w) out"
  shows "for_each (\<lambda>x. lift_fs (write_file (out @ [name x]) (cnt x))) xs w =
           (Ret (), w\<lparr>fs := apply_writes (map (\<lambda>x. (out @ [name x], cnt x)) xs) (fs w)\<rparr>)"
  using assms
proof (induction xs arbitrary: w)
  case Nil
  show ?case by (simp add: apply_writes_Nil)
next
  case (Cons x xs)
  let ?w' = "w\<lparr>fs := apply_writes [(out @ [name x], cnt x)] (fs w)\<rparr>"
  have w': "writable (fs ?w') out"
    using Cons.prems by (simp add: writable_apply_writes)
  show ?case
    using Cons.IH [OF w'] write_ok [OF Cons.prems, of "name x" "cnt x"]
    by (simp add: apply_writes_def)
qed

lemma generate_sub_module_ok:
  assumes "writable (fs w) out"
  shows "\<exists>w'. generate_sub_module_class_function_docs n m out w = (Ret (), w') \<and>
              fs w' = apply_writes (module_writes n m out) (fs w) \<and> environ w' = environ w"
proof -
  let ?w1 = "w\<lparr>stdout := stdout w @ [''Generating docs for submodule: '' @ n]\<rparr>"
  have 1: "writable (fs ?w1) out" using assms by simp
  let ?cw = "map (\<lambda>c. (out @ [n @ ''.'' @ c @ ''.rst''], Text (class_doc_text n c))) (class_names_of m)"
  let ?w2 = "?w1\<lparr>fs := apply_writes ?cw (fs ?w1)\<rparr>"
  have c: "for_each (\<lambda>c. generate_class_doc n c (member_file out n c)) (class_names_of m) ?w1 = (Ret (), ?w2)"
    unfolding generate_class_doc_def member_file_def
    by (rule for_each_writes [OF 1, of "\<lambda>c. n @ ''.'' @ c @ ''.rst''" "\<lambda>c. Text (class_doc_text n c)"])
  have 2: "writable (fs ?w2) out" using assms by (simp add: writable_apply_writes)
  let ?fw = "map (\<lambda>f. (out @ [n @ ''.'' @ f @ ''.rst''], Text (function_doc_text n f))) (function_names_of m)"
  let ?w3 = "?w2\<lparr>fs := apply_writes ?fw (fs ?w2)\<rparr>"
  have f: "for_each (\<lambda>f. generate_function_doc n f (member_file out n f)) (function_names_of m) ?w2 = (Ret (), ?w3)"
    unfolding generate_function_doc_def member_file_def
    by (rule for_each_writes [OF 2, of "\<lambda>f. n @ ''.'' @ f @ ''.rst''" "\<lambda>f. Text (function_doc_text n f)"])
  have 3: "writable (fs ?w3) out" using assms by (simp add: writable_apply_writes)
  let ?mw = "[(out @ [n @ ''.rst''], Text (sub_module_doc_text n (class_names_of m) (function_names_of m)))]"
  let ?w4 = "?w3\<lparr>fs := apply_writes ?mw (fs ?w3)\<rparr>"
  have g: "generate_sub_module_doc n (class_names_of m) (function_names_of m) (module_file out n) ?w3 = (Ret (), ?w4)"
    unfolding generate_sub_module_doc_def module_file_def
    by (rule write_ok [OF 3])
  have r: "generate_sub_module_class_function_docs n m out w = (Ret (), ?w4)"
    unfolding generate_sub_module_class_function_docs_def Let_def seq_def and_then_def print_def
    by (simp only: c f g prod.case res.case)
  have "fs ?w4 = apply_writes (module_writes n m out) (fs w)"
    by (simp add: module_writes_def apply_writes_append member_file_def module_file_def)
  then show ?thesis using r by simp
qed

lemma for_each_modules_resolved:
  "for_each (generate_module X out) names w = (Ret (), w') \<Longrightarrow>
   \<forall>n \<in> set names. \<exists>m. get_open3d_module X n = Inr m"
proof (induction names arbitrary: w)
  case Nil
  show ?case by simp
next
  case (Cons n names)
  show ?case
  proof (cases "get_open3d_module X n")
    case (Inl e)
    then show ?thesis using Cons.prems by (simp add: generate_module_def)
  next
    case (Inr m)
    obtain r w1 where g: "generate_module X out n w = (r, w1)"
      by (cases "generate_module X out n w")
    show ?thesis
    proof (cases r)
      case (Ret u)
      then have "for_each (generate_module X out) names w1 = (Ret (), w')"
        using Cons.prems g by simp
      from Cons.IH [OF this] Inr show ?thesis by simp
    next
      case (Raise e)
      then show ?thesis using Cons.prems g by simp
    qed
  qed
qed

lemma for_each_modules_ok:
  assumes "writable (fs w) out" and "\<forall>n \<in> set names. \<exists>m. get_open3d_module X n = Inr m"
  shows "\<exists>w'. for_each (generate_module X out) names w = (Ret (), w') \<and>
              fs w' = apply_writes (all_writes X out names) (fs w) \<and> environ w' = environ w"
  using assms
proof (induction names arbitrary: w)
  case Nil
  show ?case by (simp add: all_writes_def apply_writes_Nil)
next
  case (Cons n names)
  from Cons.prems(2) obtain m where m: "get_open3d_module X n = Inr m"
    by auto
  from generate_sub_module_ok [OF Cons.prems(1), of n m] obtain w1 where
    g: "generate_sub_module_class_function_docs n m out w = (Ret (), w1)"
    and f1: "fs w1 = apply_writes (module_writes n m out) (fs w)"
    and e1: "environ w1 = environ w"
    by blast
  have w1: "writable (fs w1) out"
    using Cons.prems(1) by (simp add: f1 writable_apply_writes)
  from Cons.IH [OF w1] Cons.prems(2) obtain w' where
    r: "for_each (generate_module X out) names w1 = (Ret (), w')"
    and f': "fs w' = apply_writes (all_writes X out names) (fs w1)"
    and e': "environ w' = environ w1"
    by auto
  have "for_each (generate_module X out) (n # names) w = (Ret (), w')"
    using g r m by (simp add: generate_module_def)
  moreover have "fs w' = apply_writes (all_writes X out (n # names)) (fs w)"
    using f' f1 m by (simp add: all_writes_def apply_writes_append)
  ultimately show ?case using e' e1 by simp
qed

lemma map_of_filter_key:
  "map_of (filter (\<lambda>(q, c). P q) al) k = (if P k then map_of al k else None)"
  by (induction al) auto

lemma rmtree_char:
  assumes "rmtree p f = Inr f'"
  shows "is_dir f p" and "dirs f' = filter (\<lambda>d. \<not> prefix p d) (dirs f)"
    and "files f' = filter (\<lambda>(q, c). \<not> prefix p q) (files f)"
  using assms by (auto simp: rmtree_def split: if_splits)

lemma makedirs_char:
  assumes "makedirs p f = Inr f'"
  shows "\<not> path_exists f p" and "\<forall>q \<in> set (prefixes p). \<not> is_file f q"
    and "files f' = files f" and "set (dirs f') = set (dirs f) \<union> set (prefixes p)"
  using assms by (auto simp: makedirs_def list_ex_iff is_dir_def split: if_splits)

lemma create_or_clear_dir_steps:
  assumes "create_or_clear_dir out w = (Ret (), w0)"
  shows "environ w0 = environ w"
    and "path_exists (fs w) out \<Longrightarrow> \<exists>f1. rmtree out (fs w) = Inr f1 \<and> makedirs out f1 = Inr (fs w0)"
    and "\<not> path_exists (fs w) out \<Longrightarrow> makedirs out (fs w) = Inr (fs w0)"
  using assms
  by (auto simp: create_or_clear_dir_def seq_def and_then_def lift_fs_def print_def skip_def
      split: if_splits sum.splits prod.splits res.splits)

lemma is_file_key: "is_file f q \<Longrightarrow> q \<in> set (map fst (files f))"
  by (auto simp: is_file_def map_of_eq_None_iff)

lemma parent_exists:
  assumes "fs_ok f" and "path_exists f q" and "q \<noteq> []"
  shows "is_dir f (butlast q)"
  using assms is_file_key [of f q]
  by (auto simp: fs_ok_def path_exists_def is_dir_def)

lemma exists_above:
  assumes "fs_ok f"
  shows "path_exists f q \<Longrightarrow> prefix p q \<Longrightarrow> path_exists f p"
proof (induction q rule: rev_induct)
  case Nil
  then show ?case by simp
next
  case (snoc x q)
  show ?case
  proof (cases "p = q @ [x]")
    case True
    then show ?thesis using snoc.prems by simp
  next
    case False
    then have pq: "prefix p q"
      using snoc.prems(2) by (auto simp: prefix_snoc)
    have "is_dir f q"
      using parent_exists [OF assms snoc.prems(1)] by simp
    then have "path_exists f q"
      by (simp add: path_exists_def)
    from snoc.IH [OF this pq] show ?thesis .
  qed
qed

lemma clear_after_rmtree:
  assumes r: "rmtree out f = Inr f1" and m: "makedirs out f1 = Inr f0"
  shows "cleared f0 out"
    and "map_of (files f0) = (\<lambda>q. if prefix out q then None else map_of (files f) q)"
    and "set (dirs f0) = {d \<in> set (dirs f). \<not> prefix out d} \<union> set (prefixes out)"
proof -
  note rc = rmtree_char [OF r]
  note mc = makedirs_char [OF m]
  show fl: "map_of (files f0) = (\<lambda>q. if prefix out q then None else map_of (files f) q)"
    by (simp add: mc(3) rc(3) map_of_filter_key fun_eq_iff)
  show dr: "set (dirs f0) = {d \<in> set (dirs f). \<not> prefix out d} \<union> set (prefixes out)"
    by (simp add: mc(4) rc(2))
  have w: "writable f0 out"
    unfolding writable_def is_dir_def dr
    by (auto simp: strict_prefix_def)
  have a: "\<forall>q. prefix out q \<longrightarrow> map_of (files f0) q = None"
    by (simp add: fl)
  have b: "\<forall>q. prefix q out \<longrightarrow> map_of (files f0) q = None \<and> q \<in> set (dirs f0)"
    using mc(2) by (auto simp: dr is_file_def mc(3))
  show "cleared f0 out"
    using w a b by (simp add: cleared_def)
qed

lemma clear_fresh:
  assumes k: "fs_ok f" and n: "\<not> path_exists f out" and m: "makedirs out f = Inr f0"
  shows "cleared f0 out"
    and "map_of (files f0) = (\<lambda>q. if prefix out q then None else map_of (files f) q)"
    and "set (dirs f0) = {d \<in> set (dirs f). \<not> prefix out d} \<union> set (prefixes out)"
proof -
  note mc = makedirs_char [OF m]
  have under: "\<And>q. prefix out q \<Longrightarrow> \<not> path_exists f q"
    using exists_above [OF k] n by blast
  show fl: "map_of (files f0) = (\<lambda>q. if prefix out q then None else map_of (files f) q)"
    using under by (auto simp: mc(3) fun_eq_iff path_exists_def is_file_def)
  show dr: "set (dirs f0) = {d \<in> set (dirs f). \<not> prefix out d} \<union> set (prefixes out)"
    using under by (auto simp: mc(4) path_exists_def is_dir_def)
  have w: "writable f0 out"
    unfolding writable_def is_dir_def dr
    by (auto simp: strict_prefix_def)
  have a: "\<forall>q. prefix out q \<longrightarrow> map_of (files f0) q = None"
    by (simp add: fl)
  have b: "\<forall>q. prefix q out \<longrightarrow> map_of (files f0) q = None \<and> q \<in> set (dirs f0)"
    using mc(2) by (auto simp: dr is_file_def mc(3))
  show "cleared f0 out"
    using w a b by (simp add: cleared_def)
qed

lemma create_or_clear_dir_char:
  assumes "create_or_clear_dir out w = (Ret (), w0)"
    and "path_exists (fs w) out \<or> fs_ok (fs w)"
  shows "cleared (fs w0) out"
    and "map_of (files (fs w0)) = (\<lambda>q. if prefix out q then None else map_of (files (fs w)) q)"
    and "set (dirs (fs w0)) = {d \<in> set (dirs (fs w)). \<not> prefix out d} \<union> set (prefixes out)"
    and "environ w0 = environ w"
proof -
  note st = create_or_clear_dir_steps [OF assms(1)]
  show "environ w0 = environ w" by (rule st(1))
  show "cleared (fs w0) out"
  proof (cases "path_exists (fs w) out")
    case True
    from st(2) [OF True] obtain f1 where "rmtree out (fs w) = Inr f1" "makedirs out f1 = Inr (fs w0)"
      by blast
    then show ?thesis by (rule clear_after_rmtree(1))
  next
    case False
    then show ?thesis using clear_fresh(1) [OF _ False st(3) [OF False]] assms(2) by blast
  qed
  show "map_of (files (fs w0)) = (\<lambda>q. if prefix out q then None else map_of (files (fs w)) q)"
  proof (cases "path_exists (fs w) out")
    case True
    from st(2) [OF True] obtain f1 where "rmtree out (fs w) = Inr f1" "makedirs out f1 = Inr (fs w0)"
      by blast
    then show ?thesis by (rule clear_after_rmtree(2))
  next
    case False
    then show ?thesis using clear_fresh(2) [OF _ False st(3) [OF False]] assms(2) by blast
  qed
  show "set (dirs (fs w0)) = {d \<in> set (dirs (fs w)). \<not> prefix out d} \<union> set (prefixes out)"
  proof (cases "path_exists (fs w) out")
    case True
    from st(2) [OF True] obtain f1 where "rmtree out (fs w) = Inr f1" "makedirs out f1 = Inr (fs w0)"
      by blast
    then show ?thesis by (rule clear_after_rmtree(3))
  next
    case False
    then show ?thesis using clear_fresh(3) [OF _ False st(3) [OF False]] assms(2) by blast
  qed
qed

lemma module_writes_keys: "(q, c) \<in> set (module_writes n m out) \<Longrightarrow> \<exists>x. q = out @ [x]"
  by (auto simp: module_writes_def member_file_def module_file_def)

lemma all_writes_keys: "(q, c) \<in> set (all_writes X out names) \<Longrightarrow> \<exists>x. q = out @ [x]"
  by (auto simp: all_writes_def dest: module_writes_keys split: sum.splits)

lemma map_of_writes_outside:
  assumes "\<And>x. q \<noteq> out @ [x]"
  shows "map_of (rev (all_writes X out names)) q = None"
proof -
  have "q \<notin> fst ` set (rev (all_writes X out names))"
    using assms all_writes_keys [of q _ X out names] by force
  then show ?thesis
    by (simp add: map_of_eq_None_iff)
qed

lemma generate_rst_char:
  assumes "generate_rst X self w = (Ret (), w1)"
    and "path_exists (fs w) (output_dir self) \<or> fs_ok (fs w)"
  shows "\<exists>w0. create_or_clear_dir (output_dir self) w = (Ret (), w0) \<and>
              fs w1 = apply_writes (all_writes X (output_dir self) (module_names self)) (fs w0) \<and>
              environ w1 = environ w \<and>
              (\<forall>n \<in> set (module_names self). \<exists>m. get_open3d_module X n = Inr m)"
proof -
  obtain r w0 where c: "create_or_clear_dir (output_dir self) w = (r, w0)"
    by (cases "create_or_clear_dir (output_dir self) w")
  show ?thesis
  proof (cases r)
    case (Raise e)
    then show ?thesis
      using assms(1) c by (simp add: generate_rst_def seq_def and_then_def)
  next
    case (Ret u)
    then have c': "create_or_clear_dir (output_dir self) w = (Ret (), w0)"
      using c by simp
    have l: "for_each (generate_module X (output_dir self)) (module_names self) w0 = (Ret (), w1)"
      using assms(1) c' by (simp add: generate_rst_def seq_def and_then_def)
    note res = for_each_modules_resolved [OF l]
    note ch = create_or_clear_dir_char [OF c' assms(2)]
    have wr: "writable (fs w0) (output_dir self)"
      using ch(1) by (simp add: cleared_def)
    from for_each_modules_ok [OF wr res] l
    have "fs w1 = apply_writes (all_writes X (output_dir self) (module_names self)) (fs w0)"
      and "environ w1 = environ w0"
      by auto
    then show ?thesis
      using c' res ch(4) by simp
  qed
qed

lemma create_or_clear_dir_again:
  assumes cl: "cleared f0 out" and f: "fs w = apply_writes (all_writes X out names) f0"
  shows "\<exists>w'. create_or_clear_dir out w = (Ret (), w') \<and> cleared (fs w') out \<and>
               map_of (files (fs w')) = map_of (files f0) \<and> set (dirs (fs w')) = set (dirs f0) \<and>
               environ w' = environ w"
proof -
  have d: "dirs (fs w) = dirs f0"
    by (simp add: f dirs_apply_writes)
  have mf: "map_of (files (fs w)) = map_of (files f0) ++ map_of (rev (all_writes X out names))"
    by (simp add: f map_of_apply_writes)
  have isd: "is_dir (fs w) out"
    using cl by (simp add: cleared_def writable_def is_dir_def d)
  then have pe: "path_exists (fs w) out"
    by (simp add: path_exists_def)
  let ?f1 = "\<lparr>dirs = filter (\<lambda>d. \<not> prefix out d) (dirs (fs w)),
             files = filter (\<lambda>(q, c). \<not> prefix out q) (files (fs w))\<rparr>"
  have rm: "rmtree out (fs w) = Inr ?f1"
    using isd by (simp add: rmtree_def)
  have above: "\<And>q. prefix q out \<Longrightarrow> map_of (files (fs w)) q = None"
  proof -
    fix q assume p: "prefix q out"
    have "\<And>x. q \<noteq> out @ [x]"
      using p by (auto simp: prefix_def)
    then have "map_of (rev (all_writes X out names)) q = None"
      by (rule map_of_writes_outside)
    moreover have "map_of (files f0) q = None"
      using cl p by (simp add: cleared_def)
    ultimately show "map_of (files (fs w)) q = None"
      by (simp add: mf map_add_def)
  qed
  have npe: "\<not> path_exists ?f1 out"
    by (simp add: path_exists_def is_dir_def is_file_def map_of_filter_key)
  have nfile: "\<not> list_ex (is_file ?f1) (prefixes out)"
    using above by (auto simp: list_ex_iff is_file_def map_of_filter_key)
  let ?f2 = "?f1\<lparr>dirs := dirs ?f1 @ filter (\<lambda>q. \<not> is_dir ?f1 q) (prefixes out)\<rparr>"
  have mk: "makedirs out ?f1 = Inr ?f2"
    using npe nfile by (simp add: makedirs_def)
  let ?w' = "w\<lparr>fs := ?f1, stdout := stdout w @ [''Removed directory '' @ path_str out]\<rparr>
              \<lparr>fs := ?f2, stdout := stdout w @ [''Removed directory '' @ path_str out] @
                 [''Created directory '' @ path_str out]\<rparr>"
  obtain r w' where c: "create_or_clear_dir out w = (r, w')"
    by (cases "create_or_clear_dir out w")
  have r: "r = Ret ()"
    using c pe rm mk
    by (auto simp: create_or_clear_dir_def seq_def and_then_def lift_fs_def print_def
        split: if_splits sum.splits prod.splits res.splits)
  then have c': "create_or_clear_dir out w = (Ret (), w')"
    using c by simp
  note ch = create_or_clear_dir_char [OF c', of ] 
  have ch1: "cleared (fs w') out"
    using ch(1) pe by simp
  have ch2: "map_of (files (fs w')) = (\<lambda>q. if prefix out q then None else map_of (files (fs w)) q)"
    using ch(2) pe by simp
  have ch3: "set (dirs (fs w')) = {d \<in> set (dirs (fs w)). \<not> prefix out d} \<union> set (prefixes out)"
    using ch(3) pe by simp
  have ch4: "environ w' = environ w"
    using ch(4) pe by simp
  have m: "map_of (files (fs w')) = map_of (files f0)"
  proof
    fix q
    show "map_of (files (fs w')) q = map_of (files f0) q"
    proof (cases "prefix out q")
      case True
      then show ?thesis using cl by (simp add: ch2 cleared_def)
    next
      case False
      then have "\<And>x. q \<noteq> out @ [x]"
        by auto
      then have "map_of (rev (all_writes X out names)) q = None"
        by (rule map_of_writes_outside)
      then show ?thesis
        using False by (simp add: ch2 mf map_add_def)
    qed
  qed
  have s: "set (dirs (fs w')) = set (dirs f0)"
  proof -
    have 1: "\<And>x. x \<in> set (dirs f0) \<Longrightarrow> prefix out x \<Longrightarrow> x = out"
      using cl by (auto simp: cleared_def writable_def strict_prefix_def)
    have 2: "set (prefixes out) \<subseteq> set (dirs f0)"
      using cl by (auto simp: cleared_def)
    have 3: "{x \<in> set (dirs f0). \<not> prefix out x} \<union> set (prefixes out) \<subseteq> set (dirs f0)"
      using 2 by auto
    have 4: "set (dirs f0) \<subseteq> {x \<in> set (dirs f0). \<not> prefix out x} \<union> set (prefixes out)"
    proof
      fix x assume x: "x \<in> set (dirs f0)"
      show "x \<in> {x \<in> set (dirs f0). \<not> prefix out x} \<union> set (prefixes out)"
      proof (cases "prefix out x")
        case True
        then have "x = out" using 1 x by simp
        then show ?thesis by simp
      next
        case False
        then show ?thesis using x by simp
      qed
    qed
    show ?thesis
      unfolding ch3 d using 3 4 by (rule equalityI)
  qed
  show ?thesis
    using c' ch1 m s ch4 by blast
qed

lemma map_of_apply_writes_cong:
  "map_of (files f) = map_of (files g) \<Longrightarrow>
   map_of (files (apply_writes ws f)) = map_of (files (apply_writes ws g))"
  by (simp add: map_of_apply_writes)

section \<open>The files of the reference emitter (C3)\<close>






lemma fs_ok_empty_world: "fs_ok (fs empty_world)"
  by (simp add: fs_ok_def empty_world_def)

lemma gen_camera_run:
  "generate_rst example_externals camera_builder empty_world =
     (Ret (), snd (generate_rst example_externals camera_builder empty_world))"
  using gen_camera_ok by (simp add: prod_eq_iff)










section \<open>Running the reference emitter twice (C5)\<close>

text \<open>
  C5. When a run of \<^verbatim>\<open>generate_rst\<close> (on a tree-shaped file system) has ended without an
  exception, a second run with the same module list and the same modules ends without an
  exception too and leaves the same files with the same contents, the same directories
  and the same environment.
\<close>

theorem generate_rst_idempotent:
  assumes "fs_ok (fs w)" and "generate_rst X self w = (Ret (), w1)"
  shows "\<exists>w2. generate_rst X self w1 = (Ret (), w2) \<and>
              map_of (files (fs w2)) = map_of (files (fs w1)) \<and>
              set (dirs (fs w2)) = set (dirs (fs w1)) \<and>
              environ w2 = environ w1"
proof -
  let ?out = "output_dir self" and ?names = "module_names self"
  from generate_rst_char [OF assms(2)] assms(1) obtain w0 where
    c0: "create_or_clear_dir ?out w = (Ret (), w0)"
    and f1: "fs w1 = apply_writes (all_writes X ?out ?names) (fs w0)"
    and res: "\<forall>n \<in> set ?names. \<exists>m. get_open3d_module X n = Inr m"
    by blast
  have cl0: "cleared (fs w0) ?out"
    using create_or_clear_dir_char(1) [OF c0] assms(1) by blast
  from create_or_clear_dir_again [OF cl0 f1] obtain w0' where
    c1: "create_or_clear_dir ?out w1 = (Ret (), w0')"
    and cl1: "cleared (fs w0') ?out"
    and m1: "map_of (files (fs w0')) = map_of (files (fs w0))"
    and d1: "set (dirs (fs w0')) = set (dirs (fs w0))"
    and e1: "environ w0' = environ w1"
    by blast
  have wr: "writable (fs w0') ?out"
    using cl1 by (simp add: cleared_def)
  from for_each_modules_ok [OF wr res] obtain w2 where
    l: "for_each (generate_module X ?out) ?names w0' = (Ret (), w2)"
    and f2: "fs w2 = apply_writes (all_writes X ?out ?names) (fs w0')"
    and e2: "environ w2 = environ w0'"
    by blast
  have g: "generate_rst X self w1 = (Ret (), w2)"
    using c1 l by (simp add: generate_rst_def seq_def and_then_def)
  have m: "map_of (files (fs w2)) = map_of (files (fs w1))"
    unfolding f1 f2 by (rule map_of_apply_writes_cong [OF m1])
  have d: "set (dirs (fs w2)) = set (dirs (fs w1))"
    by (simp add: f1 f2 dirs_apply_writes d1)
  show ?thesis
    using g m d e1 e2 by simp
qed

theorem generate_rst_idempotent_witness:
  "\<exists>w2. generate_rst example_externals camera_builder
           (snd (generate_rst example_externals camera_builder empty_world)) = (Ret (), w2) \<and>
        map_of (files (fs w2)) =
          map_of (files (fs (snd (generate_rst example_externals camera_builder empty_world)))) \<and>
        set (dirs (fs w2)) =
          set (dirs (fs (snd (generate_rst example_externals camera_builder empty_world)))) \<and>
        environ w2 = environ (snd (generate_rst example_externals camera_builder empty_world))"
  by (rule generate_rst_idempotent [OF fs_ok_empty_world gen_camera_run])

end
